theory Spec2Isabelle
  imports
    Main
    "HOL-Library.Word"
    "HOL-Library.Char_ord"
    "HOL-Library.List_Lexorder"
    "HOL-Library.AList"
begin

unbundle bit_operations_syntax

section \<open>Bytes, strings and formatting\<close>

text \<open>
  Go's \<open>byte\<close> is an unsigned 8-bit integer and a Go \<open>string\<close> is a sequence of bytes;
  \<open>[]byte(s)\<close> copies them. Go's \<open>int\<close> is taken at its 64-bit width. Strings are
  compared bytewise, which on \<open>string\<close> is the lexicographic order
  of \<open>HOL-Library.List_Lexorder\<close> over the character codes of \<open>HOL-Library.Char_ord\<close>.
\<close>

type_synonym byte = "8 word"
type_synonym bytes = "byte list"
type_synonym go_int = "64 word"

definition byte_of_char :: "char \<Rightarrow> byte" where
  "byte_of_char c = of_nat (of_char c)"

definition bytes_of_string :: "string \<Rightarrow> bytes" where
  "bytes_of_string s = map byte_of_char s"

text \<open>\<open>encoding/hex\<close>: \<open>EncodeToString\<close> writes \<open>hextable[v >> 4]\<close>, \<open>hextable[v & 0x0f]\<close>
  for every byte \<open>v\<close>.\<close>

definition hextable :: string where
  "hextable = ''0123456789abcdef''"

definition hex_EncodeToString :: "bytes \<Rightarrow> string" where
  "hex_EncodeToString src =
     concat (map (\<lambda>v. [hextable ! unat (drop_bit 4 v), hextable ! unat (v AND 0x0f)]) src)"

text \<open>The verb \<open>%d\<close> of \<open>fmt.Sprintf\<close> on an \<open>int\<close>: signed decimal, no padding.\<close>

fun decimal_nat :: "nat \<Rightarrow> string" where
  "decimal_nat n =
     (if n < 10 then [''0123456789'' ! n]
      else decimal_nat (n div 10) @ [''0123456789'' ! (n mod 10)])"

declare decimal_nat.simps [simp del]

definition decimal_int :: "int \<Rightarrow> string" where
  "decimal_int i = (if i < 0 then CHR ''-'' # decimal_nat (nat (- i)) else decimal_nat (nat i))"

text \<open>\<open>strings.ToUpper\<close>, on the ASCII letters (the only letters it is applied to here
  are the hexadecimal digits \<open>a\<close> to \<open>f\<close>).\<close>

definition upper_char :: "char \<Rightarrow> char" where
  "upper_char c =
     (if CHR ''a'' \<le> c \<and> c \<le> CHR ''z'' then char_of (of_char c - (32 :: nat)) else c)"

definition strings_ToUpper :: "string \<Rightarrow> string" where
  "strings_ToUpper s = map upper_char s"

section \<open>SHA-256\<close>

text \<open>
  \<open>crypto/sha256\<close> as FIPS 180-4 defines it, on 32-bit words: \<open>sha256_Sum256\<close> is
  \<open>sha256.Sum256\<close>, whose result type \<open>[32]byte\<close> is a list of exactly 32 bytes
  (lemma \<open>length_sha256_Sum256\<close>). \<open>K256\<close> holds the round constants (the first 32 bits
  of the fractional parts of the cube roots of the first 64 primes) and \<open>H256\<close> the
  initial hash value; lemma \<open>abc_digest\<close> checks the definition on the test vector
  \<open>abc\<close> of the standard.
\<close>

definition rotr :: "nat \<Rightarrow> 32 word \<Rightarrow> 32 word" where
  "rotr n x = drop_bit n x OR push_bit (32 - n) x"

definition K256 :: "32 word list" where
  "K256 =
     [1116352408, 1899447441, 3049323471, 3921009573, 961987163, 1508970993,
      2453635748, 2870763221, 3624381080, 310598401, 607225278, 1426881987,
      1925078388, 2162078206, 2614888103, 3248222580, 3835390401, 4022224774,
      264347078, 604807628, 770255983, 1249150122, 1555081692, 1996064986,
      2554220882, 2821834349, 2952996808, 3210313671, 3336571891, 3584528711,
      113926993, 338241895, 666307205, 773529912, 1294757372, 1396182291,
      1695183700, 1986661051, 2177026350, 2456956037, 2730485921, 2820302411,
      3259730800, 3345764771, 3516065817, 3600352804, 4094571909, 275423344,
      430227734, 506948616, 659060556, 883997877, 958139571, 1322822218,
      1537002063, 1747873779, 1955562222, 2024104815, 2227730452, 2361852424,
      2428436474, 2756734187, 3204031479, 3329325298]"

definition H256 :: "32 word list" where
  "H256 =
     [1779033703, 3144134277, 1013904242, 2773480762,
      1359893119, 2600822924, 528734635, 1541459225]"

definition ssig0 :: "32 word \<Rightarrow> 32 word" where
  "ssig0 x = rotr 7 x XOR rotr 18 x XOR drop_bit 3 x"

definition ssig1 :: "32 word \<Rightarrow> 32 word" where
  "ssig1 x = rotr 17 x XOR rotr 19 x XOR drop_bit 10 x"

definition bsig0 :: "32 word \<Rightarrow> 32 word" where
  "bsig0 x = rotr 2 x XOR rotr 13 x XOR rotr 22 x"

definition bsig1 :: "32 word \<Rightarrow> 32 word" where
  "bsig1 x = rotr 6 x XOR rotr 11 x XOR rotr 25 x"

definition ch :: "32 word \<Rightarrow> 32 word \<Rightarrow> 32 word \<Rightarrow> 32 word" where
  "ch x y z = (x AND y) XOR (NOT x AND z)"

definition maj :: "32 word \<Rightarrow> 32 word \<Rightarrow> 32 word \<Rightarrow> 32 word" where
  "maj x y z = (x AND y) XOR (x AND z) XOR (y AND z)"

text \<open>The message schedule; \<open>win\<close> holds the sixteen most recent words.\<close>

fun schedule :: "nat \<Rightarrow> 32 word list \<Rightarrow> 32 word list" where
  "schedule 0 win = []"
| "schedule (Suc n) win =
     hd win # schedule n (tl win @ [ssig1 (win ! 14) + win ! 9 + ssig0 (win ! 1) + win ! 0])"

fun round256 :: "32 word list \<Rightarrow> 32 word \<times> 32 word \<Rightarrow> 32 word list" where
  "round256 [a, b, c, d, e, f, g, h] (k, w) =
     (let t1 = h + bsig1 e + ch e f g + k + w;
          t2 = bsig0 a + maj a b c
      in [t1 + t2, a, b, c, d + t1, e, f, g])"
| "round256 st kw = st"

fun words_of :: "bytes \<Rightarrow> 32 word list" where
  "words_of (a # b # c # d # rest) =
     (push_bit 24 (ucast a) OR push_bit 16 (ucast b) OR push_bit 8 (ucast c) OR ucast d)
       # words_of rest"
| "words_of rest = []"

definition compress :: "32 word list \<Rightarrow> bytes \<Rightarrow> 32 word list" where
  "compress hs block =
     map2 (+) hs (foldl round256 hs (zip K256 (schedule 64 (words_of block))))"

fun blocks :: "nat \<Rightarrow> 32 word list \<Rightarrow> bytes \<Rightarrow> 32 word list" where
  "blocks 0 hs bs = hs"
| "blocks (Suc n) hs bs = blocks n (compress hs (take 64 bs)) (drop 64 bs)"

definition length_bytes :: "nat \<Rightarrow> bytes" where
  "length_bytes n = map (\<lambda>i. of_nat (n div 256 ^ i mod 256)) [7, 6, 5, 4, 3, 2, 1, 0]"

definition pad :: "bytes \<Rightarrow> bytes" where
  "pad m = m @ [0x80] @ replicate ((64 - (length m + 9) mod 64) mod 64) 0
             @ length_bytes (8 * length m)"

definition SHA256 :: "bytes \<Rightarrow> 32 word list" where
  "SHA256 m = (let p = pad m in blocks (length p div 64) H256 p)"

definition word_bytes :: "32 word \<Rightarrow> bytes" where
  "word_bytes w = [ucast (drop_bit 24 w), ucast (drop_bit 16 w), ucast (drop_bit 8 w), ucast w]"

definition sha256_Sum256 :: "bytes \<Rightarrow> bytes" where
  "sha256_Sum256 m = concat (map word_bytes (SHA256 m))"

section \<open>The libraries taken as parameters\<close>

text \<open>
  MD5, PBKDF2, AES-GCM, \<open>encoding/json\<close> and \<open>path/filepath\<close> are libraries outside the
  repository. They are parameters of the model, one record of functions:
  \<^item> \<open>md5_Sum\<close>: \<open>md5.Sum\<close>; its result type \<open>[16]byte\<close> is a 128-bit word, read as sixteen
    bytes by \<open>array16\<close>;
  \<^item> \<open>pbkdf2_Key password salt iter keyLen\<close>: \<open>pbkdf2.Key\<close> with \<open>sha256.New\<close>;
  \<^item> \<open>gcm_Seal key nonce plaintext\<close> and \<open>gcm_Open key nonce ciphertext\<close>: the AEAD of
    \<open>cipher.NewGCM(aes.NewCipher(key))\<close> with no additional data; \<open>gcm_Open\<close> is \<open>None\<close>
    when authentication fails;
  \<^item> \<open>json_MarshalIndent\<close> and \<open>json_Unmarshal\<close> on the document type \<open>'j\<close> (the license
    record below), \<open>None\<close> when they return an error;
  \<^item> \<open>filepath_Join dir name\<close>.
\<close>

record 'j prims =
  md5_Sum :: "bytes \<Rightarrow> 128 word"
  pbkdf2_Key :: "bytes \<Rightarrow> bytes \<Rightarrow> nat \<Rightarrow> nat \<Rightarrow> bytes"
  gcm_Seal :: "bytes \<Rightarrow> bytes \<Rightarrow> bytes \<Rightarrow> bytes"
  gcm_Open :: "bytes \<Rightarrow> bytes \<Rightarrow> bytes \<Rightarrow> bytes option"
  json_MarshalIndent :: "'j \<Rightarrow> bytes option"
  json_Unmarshal :: "bytes \<Rightarrow> 'j option"
  filepath_Join :: "string \<Rightarrow> string \<Rightarrow> string"

definition array16 :: "128 word \<Rightarrow> bytes" where
  "array16 h = map (\<lambda>i. ucast (drop_bit (8 * (15 - i)) h)) [0..<16]"

text \<open>
  The contracts of the libraries that the theorems below rely on. \<open>pbkdf2_length\<close>:
  \<open>pbkdf2.Key\<close> returns \<open>keyLen\<close> bytes. \<open>aead_correct\<close>: opening with the key and the
  nonce of the sealing returns the plaintext. \<open>aead_key_binding\<close>: opening with another
  key fails; this is the authenticity of AES-GCM read as an absolute, where the cipher
  itself guarantees it up to the negligible probability of a matching tag.
\<close>

definition pbkdf2_length :: "'j prims \<Rightarrow> bool" where
  "pbkdf2_length P \<longleftrightarrow> (\<forall>pw salt iter n. length (pbkdf2_Key P pw salt iter n) = n)"

definition aead_correct :: "'j prims \<Rightarrow> bool" where
  "aead_correct P \<longleftrightarrow>
     (\<forall>k n x. length k = 32 \<and> length n = 12 \<longrightarrow> gcm_Open P k n (gcm_Seal P k n x) = Some x)"

definition aead_key_binding :: "'j prims \<Rightarrow> bool" where
  "aead_key_binding P \<longleftrightarrow>
     (\<forall>k k' n x. length k = 32 \<and> length k' = 32 \<and> length n = 12 \<and> k \<noteq> k' \<longrightarrow>
        gcm_Open P k' n (gcm_Seal P k n x) = None)"

section \<open>The crypto manager\<close>

text \<open>
  The crypto package (the second of the two unnamed source files): \<open>NewCryptoManager\<close>
  (lines 29 to 38), \<open>NewCryptoManagerWithKey\<close> (41 to 51), \<open>getMasterKey\<close> (54 to 64),
  \<open>DeriveSerialKey\<close> (69 to 73), \<open>DeriveEncryptionKey\<close> (78 to 82), \<open>GenerateSerial\<close>
  (86 to 103), \<open>Encrypt\<close> (106 to 126), \<open>Decrypt\<close> (129 to 154), \<open>deriveSalt\<close>
  (168 to 175) and \<open>GenerateRandomBytes\<close> (178 to 184). An error the source returns is a
  value of \<open>crypto_error\<close>.
\<close>

record CryptoManager =
  masterKey :: bytes

datatype crypto_error =
    MasterKeyEmpty
  | EnvMasterKeyRequired
  | MasterKeyNot32Bytes
  | KeySizeError nat
  | CiphertextTooShort
  | AuthenticationFailed

definition NewCryptoManagerWithKey :: "string \<Rightarrow> crypto_error + CryptoManager" where
  "NewCryptoManagerWithKey key =
     (if key = [] then Inl MasterKeyEmpty
      else Inr \<lparr>masterKey = sha256_Sum256 (bytes_of_string key)\<rparr>)"

text \<open>\<open>envKey\<close> is the value of the environment variable \<open>LICENSE_MASTER_KEY\<close>
  (empty when unset).\<close>

definition getMasterKey :: "string \<Rightarrow> crypto_error + bytes" where
  "getMasterKey envKey =
     (if envKey = [] then Inl EnvMasterKeyRequired
      else Inr (sha256_Sum256 (bytes_of_string envKey)))"

definition NewCryptoManager :: "string \<Rightarrow> crypto_error + CryptoManager" where
  "NewCryptoManager envKey =
     (case getMasterKey envKey of
        Inl e \<Rightarrow> Inl e
      | Inr key \<Rightarrow> if length key \<noteq> 32 then Inl MasterKeyNot32Bytes else Inr \<lparr>masterKey = key\<rparr>)"

definition deriveSalt :: "CryptoManager \<Rightarrow> string \<Rightarrow> bytes" where
  "deriveSalt cm purpose =
     sha256_Sum256 ((bytes_of_string ''LICENSE_MANAGER_2025_'' @ bytes_of_string purpose)
                     @ masterKey cm)"

definition DeriveSerialKey :: "'j prims \<Rightarrow> CryptoManager \<Rightarrow> bytes" where
  "DeriveSerialKey P cm =
     pbkdf2_Key P (masterKey cm) (deriveSalt cm ''SERIAL_KEY_DERIVATION'') 10000 32"

definition DeriveEncryptionKey :: "'j prims \<Rightarrow> CryptoManager \<Rightarrow> bytes" where
  "DeriveEncryptionKey P cm =
     pbkdf2_Key P (masterKey cm) (deriveSalt cm ''ENCRYPTION_KEY_DERIVATION'') 10000 32"

text \<open>The loop of \<open>GenerateSerial\<close>: \<open>i\<close> is the index of \<open>char\<close> in \<open>hashStr\<close>,
  \<open>serial\<close> the string built so far.\<close>

fun insert_dashes :: "nat \<Rightarrow> string \<Rightarrow> string \<Rightarrow> string" where
  "insert_dashes i serial [] = serial"
| "insert_dashes i serial (char # rest) =
     insert_dashes (Suc i)
       ((if 0 < i \<and> i mod 5 = 0 then serial @ ''-'' else serial) @ [char]) rest"

definition GenerateSerial :: "'j prims \<Rightarrow> CryptoManager \<Rightarrow> string \<Rightarrow> string \<Rightarrow> go_int \<Rightarrow> string" where
  "GenerateSerial P cm pcId productName maxDays =
     (let serialKey = DeriveSerialKey P cm;
          serialKeyHex = hex_EncodeToString serialKey;
          data = pcId @ ''|'' @ productName @ ''|'' @ decimal_int (sint maxDays) @ ''|''
                   @ serialKeyHex;
          hash = md5_Sum P (bytes_of_string data);
          hashStr = hex_EncodeToString (array16 hash);
          serial = insert_dashes 0 [] hashStr
      in strings_ToUpper (take 23 serial))"

text \<open>
  \<open>aes.NewCipher\<close> accepts keys of 16, 24 or 32 bytes; \<open>cipher.NewGCM\<close> does not fail on an
  AES block; \<open>gcm.NonceSize()\<close> is 12. \<open>rand.Read\<close> fills its buffer from the system's
  entropy, here a function from positions to bytes chosen by the environment for each
  call (since Go 1.24 it does not return an error).
\<close>

definition aes_NewCipher :: "bytes \<Rightarrow> crypto_error + bytes" where
  "aes_NewCipher key =
     (if length key = 16 \<or> length key = 24 \<or> length key = 32 then Inr key
      else Inl (KeySizeError (length key)))"

definition gcm_NonceSize :: nat where
  "gcm_NonceSize = 12"

type_synonym entropy = "nat \<Rightarrow> byte"

definition rand_Read :: "entropy \<Rightarrow> nat \<Rightarrow> bytes" where
  "rand_Read ent n = map ent [0..<n]"

definition Encrypt :: "'j prims \<Rightarrow> CryptoManager \<Rightarrow> entropy \<Rightarrow> bytes \<Rightarrow> crypto_error + bytes" where
  "Encrypt P cm ent data =
     (case aes_NewCipher (DeriveEncryptionKey P cm) of
        Inl e \<Rightarrow> Inl e
      | Inr key \<Rightarrow>
          let nonce = rand_Read ent gcm_NonceSize
          in Inr (nonce @ gcm_Seal P key nonce data))"

definition Decrypt :: "'j prims \<Rightarrow> CryptoManager \<Rightarrow> bytes \<Rightarrow> crypto_error + bytes" where
  "Decrypt P cm data =
     (case aes_NewCipher (DeriveEncryptionKey P cm) of
        Inl e \<Rightarrow> Inl e
      | Inr key \<Rightarrow>
          if length data < gcm_NonceSize then Inl CiphertextTooShort
          else (case gcm_Open P key (take gcm_NonceSize data) (drop gcm_NonceSize data) of
                  None \<Rightarrow> Inl AuthenticationFailed
                | Some plaintext \<Rightarrow> Inr plaintext))"

definition GenerateRandomBytes :: "entropy \<Rightarrow> nat \<Rightarrow> bytes" where
  "GenerateRandomBytes ent n = rand_Read ent n"

section \<open>The license record\<close>

text \<open>
  The struct \<open>License\<close> of the package (the first unnamed source file, lines 6 to 19).
  A \<open>time.Time\<close> is observed only through its two formats: \<open>RFC3339\<close> is
  \<open>now.Format(time.RFC3339)\<close> and \<open>Date\<close> is \<open>now.Format("2006-01-02")\<close>.

  \<open>UsageMap\<close> is a \<open>map[string]bool\<close> that may be \<open>nil\<close> (\<open>None\<close>): an association list
  read through \<open>map_of\<close>, so that a record can be written to bytes and read back.
  \<open>map_index\<close> is \<open>m[k]\<close> (\<open>false\<close> for a missing key), \<open>map_assign\<close> is \<open>m[k] = v\<close>,
  \<open>map_len\<close> is \<open>len(m)\<close>, the number of keys.
\<close>

record instant =
  RFC3339 :: string
  Date :: string

type_synonym go_map = "(string \<times> bool) list"

record License =
  Serial :: string
  PCId :: string
  ProductName :: string
  CreatedAt :: instant
  MaxDays :: go_int
  IsLifetime :: bool
  LastUsedDate :: string
  FirstRunDate :: string
  RunCount :: go_int
  IsActivated :: bool
  UsageHistory :: "string list"
  UsageMap :: "go_map option"

definition map_index :: "go_map \<Rightarrow> string \<Rightarrow> bool" where
  "map_index m k = (case map_of m k of None \<Rightarrow> False | Some v \<Rightarrow> v)"

definition map_assign :: "go_map \<Rightarrow> string \<Rightarrow> bool \<Rightarrow> go_map" where
  "map_assign m k v = AList.update k v m"

definition map_len :: "go_map \<Rightarrow> nat" where
  "map_len m = length (remdups (map fst m))"

text \<open>
  The struct tag \<open>json:"usage_map,omitempty"\<close>: an empty map is left out of the document,
  and a document without the field is read back with a \<open>nil\<close> map. The contract of
  \<open>encoding/json\<close> on \<open>License\<close> is that a marshalled record is read back as itself up to
  this tag (Go's codec meets it on records whose strings are valid UTF-8, as the dates,
  timestamps, machine ids and serials of this program are).
\<close>

definition omitempty :: "License \<Rightarrow> License" where
  "omitempty l = (case UsageMap l of Some [] \<Rightarrow> l\<lparr>UsageMap := None\<rparr> | _ \<Rightarrow> l)"

definition json_roundtrip :: "License prims \<Rightarrow> bool" where
  "json_roundtrip P \<longleftrightarrow>
     (\<forall>l. \<exists>data. json_MarshalIndent P l = Some data \<and> json_Unmarshal P data = Some (omitempty l))"

definition libraries_ok :: "License prims \<Rightarrow> bool" where
  "libraries_ok P \<longleftrightarrow> pbkdf2_length P \<and> aead_correct P \<and> json_roundtrip P"

section \<open>Configuration and the file system\<close>

text \<open>
  From \<open>pkg/config/config.go\<close>: \<open>Config\<close> (lines 11 to 18), \<open>DefaultConfig\<close> (21 to 27),
  \<open>GetLicenseFilePathForProduct\<close> (53 to 69), \<open>sanitizeFilename\<close> (100 to 113) and
  \<open>IsLifetimeRequest\<close> (116 to 118).
\<close>

record Config =
  DefaultMaxDays :: go_int
  LifetimeDays :: go_int
  MasterKey :: string

definition DefaultConfig :: Config where
  "DefaultConfig = \<lparr>DefaultMaxDays = 30, LifetimeDays = 99999, MasterKey = []\<rparr>"

definition IsLifetimeRequest :: "Config \<Rightarrow> go_int \<Rightarrow> bool" where
  "IsLifetimeRequest c maxDays \<longleftrightarrow> maxDays = - 1 \<or> sint (LifetimeDays c) \<le> sint maxDays"

text \<open>\<open>strings.ReplaceAll(s, old, new)\<close> for one-character \<open>old\<close> and \<open>new\<close>.\<close>

definition ReplaceAll :: "string \<Rightarrow> char \<Rightarrow> char \<Rightarrow> string" where
  "ReplaceAll s old new = map (\<lambda>c. if c = old then new else c) s"

definition sanitizeFilename :: "string \<Rightarrow> string" where
  "sanitizeFilename name =
     (let result = ReplaceAll name CHR '' '' CHR ''_'';
          result = ReplaceAll result CHR ''/'' CHR ''_'';
          result = ReplaceAll result (CHR 0x5C) CHR ''_'';
          result = ReplaceAll result CHR '':'' CHR ''_'';
          result = ReplaceAll result CHR ''*'' CHR ''_'';
          result = ReplaceAll result CHR ''?'' CHR ''_'';
          result = ReplaceAll result (CHR 0x22) CHR ''_'';
          result = ReplaceAll result CHR ''<'' CHR ''_'';
          result = ReplaceAll result CHR ''>'' CHR ''_'';
          result = ReplaceAll result CHR ''|'' CHR ''_''
      in result)"

text \<open>
  The part of the operating system the license manager touches: the files (a path has
  contents or does not exist), the environment variable \<open>LICENSE_DIR\<close> (empty when
  unset), the working directory (\<open>None\<close> when \<open>os.Getwd\<close> fails), and for each path
  whether \<open>os.MkdirAll\<close> on its directory and \<open>os.WriteFile\<close> on it fail. A failed write
  is taken to leave the file as it was.
\<close>

record world =
  files :: "string \<rightharpoonup> bytes"
  env_LICENSE_DIR :: string
  getwd :: "string option"
  mkdir_fails :: "string \<Rightarrow> bool"
  write_fails :: "string \<Rightarrow> bool"

definition GetLicenseFilePathForProduct :: "License prims \<Rightarrow> world \<Rightarrow> string \<Rightarrow> string option" where
  "GetLicenseFilePathForProduct P w productName =
     (let licenseDir = env_LICENSE_DIR w;
          filename = sanitizeFilename productName @ ''.license''
      in if licenseDir \<noteq> [] then Some (filepath_Join P licenseDir filename)
         else (case getwd w of
                 None \<Rightarrow> None
               | Some dir \<Rightarrow> Some (filepath_Join P dir filename)))"

section \<open>The license manager\<close>

text \<open>
  The manager (in \<open>pkg/license/license_test.go\<close> after the tests, from line 499):
  \<open>Create\<close> (lines 589 to 634), \<open>Validate\<close> (637 to 658), \<open>View\<close> (696 to 722), \<open>Revoke\<close>
  (725 to 749), \<open>saveLicense\<close> (752 to 773) and \<open>readAndVerifyLicense\<close> (776 to 882).
  Every operation takes the world and returns the world it leaves, also when it fails.
  The instant \<open>now\<close> is what \<open>time.Now()\<close> returns in the call and \<open>ent\<close> what
  \<open>rand.Read\<close> draws in it. \<open>os.Stat\<close> reports a missing file exactly when the path has
  no contents, and \<open>os.ReadFile\<close> fails exactly then. The field \<open>License\<close> of
  \<open>ValidationResult\<close> is \<open>ResultLicense\<close> here, and the fields of \<open>CreateLicenseRequest\<close>
  carry the prefix \<open>req\<close>, since the names are taken by the record \<open>License\<close>.
\<close>

record Manager =
  config :: Config
  crypto :: CryptoManager
  PCID :: string

record CreateLicenseRequest =
  req_ProductName :: string
  req_MaxDays :: go_int
  req_IsLifetime :: bool

datatype save_error = MkdirFailed | MarshalFailed | EncryptFailed crypto_error | WriteFailed

text \<open>The errors of the package, one constructor for each message it formats.\<close>

datatype license_error =
    PathFailed
  | AlreadyExists
  | SaveFailed save_error
  | NotFound
  | ReadFailed
  | DecryptFailed crypto_error
  | ParseFailed
  | WrongPC
  | SerialInvalid
  | RolledBack
  | Expired nat go_int
  | UpdateFailed save_error
  | NoLicenseFile
  | CorruptFailed

record ValidationResult =
  IsValid :: bool
  ResultLicense :: "License option"
  ErrorMessage :: "license_error option"

definition saveLicense ::
  "License prims \<Rightarrow> Manager \<Rightarrow> world \<Rightarrow> entropy \<Rightarrow> License \<Rightarrow> string \<Rightarrow> world \<times> save_error option" where
  "saveLicense P m w ent license filename =
     (if mkdir_fails w filename then (w, Some MkdirFailed)
      else (case json_MarshalIndent P license of
              None \<Rightarrow> (w, Some MarshalFailed)
            | Some data \<Rightarrow>
                (case Encrypt P (crypto m) ent data of
                   Inl e \<Rightarrow> (w, Some (EncryptFailed e))
                 | Inr encryptedData \<Rightarrow>
                     if write_fails w filename then (w, Some WriteFailed)
                     else (w\<lparr>files := (files w)(filename \<mapsto> encryptedData)\<rparr>, None))))"

definition Create ::
  "License prims \<Rightarrow> Manager \<Rightarrow> world \<Rightarrow> instant \<Rightarrow> entropy \<Rightarrow> CreateLicenseRequest
     \<Rightarrow> world \<times> (license_error + License)" where
  "Create P m w now ent req =
     (case GetLicenseFilePathForProduct P w (req_ProductName req) of
        None \<Rightarrow> (w, Inl PathFailed)
      | Some licenseFile \<Rightarrow>
          if files w licenseFile \<noteq> None then (w, Inl AlreadyExists)
          else
            let maxDays = req_MaxDays req;
                isLifetime = (req_IsLifetime req \<or> IsLifetimeRequest (config m) maxDays);
                maxDays = (if isLifetime then LifetimeDays (config m) else maxDays);
                pcid = PCID m;
                serial = GenerateSerial P (crypto m) pcid (req_ProductName req) maxDays;
                license = \<lparr>Serial = serial, PCId = pcid, ProductName = req_ProductName req,
                           CreatedAt = now, MaxDays = maxDays, IsLifetime = isLifetime,
                           LastUsedDate = [], FirstRunDate = [], RunCount = 0,
                           IsActivated = False, UsageHistory = [], UsageMap = Some []\<rparr>
            in (case saveLicense P m w ent license licenseFile of
                  (w', Some e) \<Rightarrow> (w', Inl (SaveFailed e))
                | (w', None) \<Rightarrow> (w', Inr license)))"

text \<open>Lines 873 to 881 of \<open>readAndVerifyLicense\<close>: the expiration check and the save that
  both branches of the activation test run into.\<close>

definition expire_or_save ::
  "License prims \<Rightarrow> Manager \<Rightarrow> world \<Rightarrow> entropy \<Rightarrow> License \<Rightarrow> string
     \<Rightarrow> world \<times> (license_error + License)" where
  "expire_or_save P m w ent license filename =
     (if \<not> IsLifetime license \<and> sint (MaxDays license) < int (length (UsageHistory license))
      then (w, Inl (Expired (length (UsageHistory license)) (MaxDays license)))
      else (case saveLicense P m w ent license filename of
              (w', Some e) \<Rightarrow> (w', Inl (UpdateFailed e))
            | (w', None) \<Rightarrow> (w', Inr license)))"

definition readAndVerifyLicense ::
  "License prims \<Rightarrow> Manager \<Rightarrow> world \<Rightarrow> instant \<Rightarrow> entropy \<Rightarrow> string \<Rightarrow> string
     \<Rightarrow> world \<times> (license_error + License)" where
  "readAndVerifyLicense P m w now ent filename currentPcId =
     (case files w filename of
        None \<Rightarrow> (w, Inl NotFound)
      | Some encryptedData \<Rightarrow>
     (case Decrypt P (crypto m) encryptedData of
        Inl e \<Rightarrow> (w, Inl (DecryptFailed e))
      | Inr data \<Rightarrow>
     (case json_Unmarshal P data of
        None \<Rightarrow> (w, Inl ParseFailed)
      | Some license \<Rightarrow>
          if PCId license \<noteq> currentPcId then (w, Inl WrongPC)
          else if Serial license
                    \<noteq> GenerateSerial P (crypto m) currentPcId (ProductName license) (MaxDays license)
          then (w, Inl SerialInvalid)
          else
            let nowRFC3339 = RFC3339 now;
                today = Date now
            in if \<not> IsActivated license then
                 expire_or_save P m w ent
                   (license\<lparr>IsActivated := True, FirstRunDate := nowRFC3339,
                            LastUsedDate := nowRFC3339, RunCount := 1,
                            UsageHistory := [today], UsageMap := Some [(today, True)]\<rparr>)
                   filename
               else
                 let license = license\<lparr>RunCount := RunCount license + 1\<rparr>
                 in if LastUsedDate license \<noteq> [] \<and> LastUsedDate license = nowRFC3339 then
                      (case saveLicense P m w ent license filename of
                         (w', Some e) \<Rightarrow> (w', Inl (UpdateFailed e))
                       | (w', None) \<Rightarrow> (w', Inr license))
                    else if LastUsedDate license \<noteq> [] \<and> nowRFC3339 < LastUsedDate license then
                      (w, Inl RolledBack)
                    else
                      let license =
                            (if UsageMap license = None
                             then license\<lparr>UsageMap :=
                                    Some (fold (\<lambda>date um. map_assign um date True)
                                            (UsageHistory license) [])\<rparr>
                             else license);
                          usedToday =
                            (case UsageMap license of
                               Some um \<Rightarrow> map_index um today
                             | None \<Rightarrow>
                                 if UsageHistory license \<noteq> []
                                      \<and> last (UsageHistory license) = today
                                 then True
                                 else today \<in> set (UsageHistory license));
                          license =
                            (if \<not> usedToday
                             then license\<lparr>LastUsedDate := nowRFC3339,
                                    UsageHistory := UsageHistory license @ [today],
                                    UsageMap := map_option (\<lambda>um. map_assign um today True)
                                                  (UsageMap license)\<rparr>
                             else license\<lparr>LastUsedDate := nowRFC3339\<rparr>)
                      in expire_or_save P m w ent license filename)))"

definition Validate ::
  "License prims \<Rightarrow> Manager \<Rightarrow> world \<Rightarrow> instant \<Rightarrow> entropy \<Rightarrow> string \<Rightarrow> world \<times> ValidationResult" where
  "Validate P m w now ent productName =
     (case GetLicenseFilePathForProduct P w productName of
        None \<Rightarrow> (w, \<lparr>IsValid = False, ResultLicense = None, ErrorMessage = Some PathFailed\<rparr>)
      | Some licenseFile \<Rightarrow>
          (case readAndVerifyLicense P m w now ent licenseFile (PCID m) of
             (w', Inl e) \<Rightarrow> (w', \<lparr>IsValid = False, ResultLicense = None, ErrorMessage = Some e\<rparr>)
           | (w', Inr license) \<Rightarrow>
               (w', \<lparr>IsValid = True, ResultLicense = Some license, ErrorMessage = None\<rparr>)))"

text \<open>\<open>View\<close> reads and writes nothing; the world it returns is the world it was given.\<close>

definition View ::
  "License prims \<Rightarrow> Manager \<Rightarrow> world \<Rightarrow> string \<Rightarrow> world \<times> (license_error + License)" where
  "View P m w productName =
     (case GetLicenseFilePathForProduct P w productName of
        None \<Rightarrow> (w, Inl PathFailed)
      | Some licenseFile \<Rightarrow>
     (case files w licenseFile of
        None \<Rightarrow> (w, Inl ReadFailed)
      | Some encryptedData \<Rightarrow>
     (case Decrypt P (crypto m) encryptedData of
        Inl e \<Rightarrow> (w, Inl (DecryptFailed e))
      | Inr data \<Rightarrow>
     (case json_Unmarshal P data of
        None \<Rightarrow> (w, Inl ParseFailed)
      | Some license \<Rightarrow>
          if PCId license \<noteq> PCID m then (w, Inl WrongPC) else (w, Inr license)))))"

definition Revoke ::
  "License prims \<Rightarrow> Manager \<Rightarrow> world \<Rightarrow> entropy \<Rightarrow> string \<Rightarrow> world \<times> license_error option" where
  "Revoke P m w ent productName =
     (case GetLicenseFilePathForProduct P w productName of
        None \<Rightarrow> (w, Some PathFailed)
      | Some licenseFile \<Rightarrow>
          if files w licenseFile = None then (w, Some NoLicenseFile)
          else
            let corruptData = GenerateRandomBytes ent 1024
            in if write_fails w licenseFile then (w, Some CorruptFailed)
               else (w\<lparr>files := (files w)(licenseFile \<mapsto> corruptData)\<rparr>, None))"

section \<open>Predicates used in the statements\<close>

text \<open>The sixteen characters a serial group is made of.\<close>

definition upper_hex :: "char set" where
  "upper_hex = set ''0123456789ABCDEF''"

definition serial_group :: "string \<Rightarrow> bool" where
  "serial_group g \<longleftrightarrow> length g = 5 \<and> set g \<subseteq> upper_hex"

text \<open>\<open>stored P m w filename l\<close>: the file at \<open>filename\<close> exists, decrypts under the
  manager's key and parses to the record \<open>l\<close>. \<open>bound_to P m pc l\<close>: the record passes
  the machine check and the serial check for the machine id \<open>pc\<close>.\<close>

definition stored :: "License prims \<Rightarrow> Manager \<Rightarrow> world \<Rightarrow> string \<Rightarrow> License \<Rightarrow> bool" where
  "stored P m w filename l \<longleftrightarrow>
     (case files w filename of
        None \<Rightarrow> False
      | Some encryptedData \<Rightarrow>
          (case Decrypt P (crypto m) encryptedData of
             Inl e \<Rightarrow> False
           | Inr data \<Rightarrow> json_Unmarshal P data = Some l))"

definition bound_to :: "License prims \<Rightarrow> Manager \<Rightarrow> string \<Rightarrow> License \<Rightarrow> bool" where
  "bound_to P m pc l \<longleftrightarrow>
     PCId l = pc \<and> Serial l = GenerateSerial P (crypto m) pc (ProductName l) (MaxDays l)"

text \<open>
  The in-memory updates of \<open>readAndVerifyLicense\<close>, named so that lemmas can speak about
  them: \<open>activated\<close> is the first activation (lines 810 to 816), \<open>rebuilt_map\<close> and
  \<open>with_map\<close> the compatibility path for a missing usage map (lines 838 to 843),
  \<open>used_again\<close> a later run that is neither at the same instant nor a rollback
  (lines 818 to 870). \<open>usage_synced\<close> says that the usage map, when present, holds
  exactly the days of the usage history, each mapped to \<open>true\<close>; \<open>len_inv\<close> is the
  invariant \<open>len(usageHistory) = len(usageMap)\<close> whenever the map is present.
\<close>

definition rebuilt_map :: "License \<Rightarrow> go_map" where
  "rebuilt_map l =
     (case UsageMap l of
        None \<Rightarrow> fold (\<lambda>date um. map_assign um date True) (UsageHistory l) []
      | Some um \<Rightarrow> um)"

definition activated :: "License \<Rightarrow> instant \<Rightarrow> License" where
  "activated l now =
     l\<lparr>IsActivated := True, FirstRunDate := RFC3339 now, LastUsedDate := RFC3339 now,
       RunCount := 1, UsageHistory := [Date now], UsageMap := Some [(Date now, True)]\<rparr>"

definition with_map :: "License \<Rightarrow> License" where
  "with_map l = (if UsageMap l = None then l\<lparr>UsageMap := Some (rebuilt_map l)\<rparr> else l)"

definition used_again :: "License \<Rightarrow> instant \<Rightarrow> License" where
  "used_again l now =
     (let l1 = with_map (l\<lparr>RunCount := RunCount l + 1\<rparr>)
      in if map_index (rebuilt_map l) (Date now)
         then l1\<lparr>LastUsedDate := RFC3339 now\<rparr>
         else l1\<lparr>LastUsedDate := RFC3339 now,
                UsageHistory := UsageHistory l @ [Date now],
                UsageMap := Some (map_assign (rebuilt_map l) (Date now) True)\<rparr>)"

definition usage_synced :: "License \<Rightarrow> bool" where
  "usage_synced l \<longleftrightarrow>
     (case UsageMap l of
        None \<Rightarrow> True
      | Some um \<Rightarrow> set (map fst um) = set (UsageHistory l)
                   \<and> list_all (map_index um) (UsageHistory l))"

definition len_inv :: "License \<Rightarrow> bool" where
  "len_inv l \<longleftrightarrow>
     (case UsageMap l of None \<Rightarrow> True | Some um \<Rightarrow> length (UsageHistory l) = map_len um)"

text \<open>The normalization of the master secret as the specification words it: the hash is
  applied only to a secret that is not already 32 bytes long.\<close>

definition spec_normalize :: "bytes \<Rightarrow> bytes" where
  "spec_normalize secret = (if length secret = 32 then secret else sha256_Sum256 secret)"

text \<open>The record that \<open>Create\<close> builds (lines 601 to 627).\<close>

definition new_license :: "License prims \<Rightarrow> Manager \<Rightarrow> instant \<Rightarrow> CreateLicenseRequest \<Rightarrow> License" where
  "new_license P m now req =
     (let isLifetime = (req_IsLifetime req \<or> IsLifetimeRequest (config m) (req_MaxDays req));
          maxDays = (if isLifetime then LifetimeDays (config m) else req_MaxDays req)
      in \<lparr>Serial = GenerateSerial P (crypto m) (PCID m) (req_ProductName req) maxDays,
          PCId = PCID m, ProductName = req_ProductName req, CreatedAt = now, MaxDays = maxDays,
          IsLifetime = isLifetime, LastUsedDate = [], FirstRunDate = [], RunCount = 0,
          IsActivated = False, UsageHistory = [], UsageMap = Some []\<rparr>)"

text \<open>Successive validations of one license file: each call runs in the world the call
  before it left, at its own instant and with its own random bytes; the results are
  collected in order.\<close>

fun validations ::
  "License prims \<Rightarrow> Manager \<Rightarrow> world \<Rightarrow> string \<Rightarrow> string \<Rightarrow> (instant \<times> entropy) list
     \<Rightarrow> (license_error + License) list" where
  "validations P m w f pc [] = []"
| "validations P m w f pc ((now, ent) # rest) =
     (case readAndVerifyLicense P m w now ent f pc of
        (w', r) \<Rightarrow> r # validations P m w' f pc rest)"

section \<open>An instance of the libraries and a scenario\<close>

text \<open>
  The contracts above are satisfiable: \<open>ref_prims\<close> gives each library parameter a small
  executable stand-in that meets its contract (a tag that is the key and the nonce for
  the AEAD, a token encoding for the JSON codec). The theorems are stated for every
  instance; the scenario below instantiates them.
\<close>


definition ref_md5 :: "bytes \<Rightarrow> 128 word" where
  "ref_md5 data = foldl (\<lambda>h b. h * 31 + ucast b) 7 data"

definition ref_pbkdf2 :: "bytes \<Rightarrow> bytes \<Rightarrow> nat \<Rightarrow> nat \<Rightarrow> bytes" where
  "ref_pbkdf2 password salt iter keyLen = take keyLen (password @ salt @ replicate keyLen 0)"

definition ref_seal :: "bytes \<Rightarrow> bytes \<Rightarrow> bytes \<Rightarrow> bytes" where
  "ref_seal key nonce plaintext = plaintext @ key @ nonce"

definition ref_open :: "bytes \<Rightarrow> bytes \<Rightarrow> bytes \<Rightarrow> bytes option" where
  "ref_open key nonce ciphertext =
     (let n = length ciphertext - (length key + length nonce)
      in if length key + length nonce \<le> length ciphertext \<and> drop n ciphertext = key @ nonce
         then Some (take n ciphertext) else None)"

definition enc_tokens :: "nat list \<Rightarrow> bytes" where
  "enc_tokens ns = concat (map (\<lambda>n. replicate n 1 @ [0]) ns)"

definition dec_tokens :: "bytes \<Rightarrow> nat list" where
  "dec_tokens bs =
     foldr (\<lambda>b acc. if b = 0 then 0 # acc else (case acc of [] \<Rightarrow> [] | n # r \<Rightarrow> Suc n # r)) bs []"

definition put_str :: "string \<Rightarrow> nat list" where
  "put_str s = length s # map of_char s"

definition get_str :: "nat list \<Rightarrow> string \<times> nat list" where
  "get_str ts = (case ts of [] \<Rightarrow> ([], []) | n # r \<Rightarrow> (map char_of (take n r), drop n r))"

fun get_strs :: "nat \<Rightarrow> nat list \<Rightarrow> string list \<times> nat list" where
  "get_strs 0 ts = ([], ts)"
| "get_strs (Suc k) ts =
     (case get_str ts of (s, r) \<Rightarrow> (case get_strs k r of (ss, r') \<Rightarrow> (s # ss, r')))"

definition put_strs :: "string list \<Rightarrow> nat list" where
  "put_strs ss = length ss # concat (map put_str ss)"

definition put_bool :: "bool \<Rightarrow> nat" where
  "put_bool b = (if b then 1 else 0)"

definition put_map :: "go_map option \<Rightarrow> nat list" where
  "put_map um =
     (case um of
        None \<Rightarrow> [0]
      | Some kvs \<Rightarrow> 1 # put_strs (map fst kvs) @ map (put_bool \<circ> snd) kvs)"

definition get_map :: "nat list \<Rightarrow> go_map option" where
  "get_map ts =
     (case ts of
        [] \<Rightarrow> None
      | flag # r \<Rightarrow>
          if flag = 0 then None
          else (case r of
                  [] \<Rightarrow> Some []
                | n # r' \<Rightarrow> (case get_strs n r' of (ks, vs) \<Rightarrow> Some (zip ks (map (\<lambda>v. v \<noteq> 0) vs)))))"

definition put_license :: "License \<Rightarrow> nat list" where
  "put_license l =
     put_str (Serial l) @ put_str (PCId l) @ put_str (ProductName l)
       @ put_str (RFC3339 (CreatedAt l)) @ put_str (Date (CreatedAt l))
       @ [unat (MaxDays l), put_bool (IsLifetime l)]
       @ put_str (LastUsedDate l) @ put_str (FirstRunDate l)
       @ [unat (RunCount l), put_bool (IsActivated l)]
       @ put_strs (UsageHistory l) @ put_map (UsageMap l)"

definition get_license :: "nat list \<Rightarrow> License" where
  "get_license ts =
     (case get_str ts of (serial, t1) \<Rightarrow>
      case get_str t1 of (pcid, t2) \<Rightarrow>
      case get_str t2 of (product, t3) \<Rightarrow>
      case get_str t3 of (created, t4) \<Rightarrow>
      case get_str t4 of (createdDay, t5) \<Rightarrow>
      case get_str (drop 2 t5) of (lastUsed, t6) \<Rightarrow>
      case get_str t6 of (firstRun, t7) \<Rightarrow>
      case get_strs (t7 ! 2) (drop 3 t7) of (history, t8) \<Rightarrow>
        \<lparr>Serial = serial, PCId = pcid, ProductName = product,
         CreatedAt = \<lparr>RFC3339 = created, Date = createdDay\<rparr>,
         MaxDays = of_nat (t5 ! 0), IsLifetime = (t5 ! 1 \<noteq> 0),
         LastUsedDate = lastUsed, FirstRunDate = firstRun,
         RunCount = of_nat (t7 ! 0), IsActivated = (t7 ! 1 \<noteq> 0),
         UsageHistory = history, UsageMap = get_map t8\<rparr>)"

definition ref_marshal :: "License \<Rightarrow> bytes option" where
  "ref_marshal l = Some (enc_tokens (put_license (omitempty l)))"

definition ref_unmarshal :: "bytes \<Rightarrow> License option" where
  "ref_unmarshal data = Some (get_license (dec_tokens data))"

definition ref_prims :: "License prims" where
  "ref_prims =
     \<lparr>md5_Sum = ref_md5, pbkdf2_Key = ref_pbkdf2, gcm_Seal = ref_seal, gcm_Open = ref_open,
      json_MarshalIndent = ref_marshal, json_Unmarshal = ref_unmarshal,
      filepath_Join = (\<lambda>dir name. dir @ ''/'' @ name)\<rparr>"

text \<open>A manager on the machine \<open>pc-1\<close>, a world without files, five instants on four
  days, and \<open>world_with l\<close>, the world after the record \<open>l\<close> has been saved as the
  license file of the product \<open>Acme\<close>.\<close>

definition ref_key :: string where
  "ref_key = ''0123456789abcdef0123456789abcdef''"

definition ref_manager :: Manager where
  "ref_manager =
     \<lparr>config = DefaultConfig,
      crypto = \<lparr>masterKey = sha256_Sum256 (bytes_of_string ref_key)\<rparr>,
      PCID = ''pc-1''\<rparr>"

definition ref_world :: world where
  "ref_world =
     \<lparr>files = Map.empty, env_LICENSE_DIR = ''/licenses'', getwd = None,
      mkdir_fails = (\<lambda>path. False), write_fails = (\<lambda>path. False)\<rparr>"

definition ref_path :: string where
  "ref_path = ''/licenses/Acme.license''"

definition ref_entropy :: entropy where
  "ref_entropy i = of_nat i"

definition world_with :: "License \<Rightarrow> world" where
  "world_with l = fst (saveLicense ref_prims ref_manager ref_world ref_entropy l ref_path)"

definition feb28_evening :: instant where
  "feb28_evening = \<lparr>RFC3339 = ''2025-02-28T20:15:00Z'', Date = ''2025-02-28''\<rparr>"

definition mar01_morning :: instant where
  "mar01_morning = \<lparr>RFC3339 = ''2025-03-01T09:00:00Z'', Date = ''2025-03-01''\<rparr>"

definition mar01_evening :: instant where
  "mar01_evening = \<lparr>RFC3339 = ''2025-03-01T18:30:00Z'', Date = ''2025-03-01''\<rparr>"

definition mar02_morning :: instant where
  "mar02_morning = \<lparr>RFC3339 = ''2025-03-02T09:00:00Z'', Date = ''2025-03-02''\<rparr>"

definition mar03_morning :: instant where
  "mar03_morning = \<lparr>RFC3339 = ''2025-03-03T09:00:00Z'', Date = ''2025-03-03''\<rparr>"

definition ref_license :: "go_int \<Rightarrow> License" where
  "ref_license maxDays =
     \<lparr>Serial = GenerateSerial ref_prims (crypto ref_manager) ''pc-1'' ''Acme'' maxDays,
      PCId = ''pc-1'', ProductName = ''Acme'', CreatedAt = feb28_evening, MaxDays = maxDays,
      IsLifetime = False, LastUsedDate = [], FirstRunDate = [], RunCount = 0,
      IsActivated = False, UsageHistory = [], UsageMap = None\<rparr>"

definition used_license :: License where
  "used_license =
     (ref_license 30)\<lparr>IsActivated := True, FirstRunDate := ''2025-02-28T20:15:00Z'',
       LastUsedDate := ''2025-03-01T09:00:00Z'', RunCount := 2,
       UsageHistory := [''2025-02-28'', ''2025-03-01'']\<rparr>"

definition forged_license :: License where
  "forged_license = used_license\<lparr>Serial := ''WRONG''\<rparr>"

definition revoked_world :: world where
  "revoked_world =
     (world_with used_license)
       \<lparr>files := (files (world_with used_license))(ref_path \<mapsto> rand_Read ref_entropy 1024)\<rparr>"

definition acme_request :: CreateLicenseRequest where
  "acme_request = \<lparr>req_ProductName = ''Acme'', req_MaxDays = 30, req_IsLifetime = False\<rparr>"

section \<open>SHA-256 on two inputs\<close>

text \<open>
  The digest of the test vector \<open>abc\<close> and of a 32-byte master secret, computed step by
  step: padding, message schedule, the 64 rounds in eight groups, the final addition.
\<close>

lemma replicate_numeral: "replicate (numeral k) x = x # replicate (pred_numeral k) x"
  by (simp add: numeral_eq_Suc)

lemma schedule_numeral:
  "schedule (numeral k) win =
     hd win # schedule (pred_numeral k)
       (tl win @ [ssig1 (win ! 14) + win ! 9 + ssig0 (win ! 1) + win ! 0])"
  by (simp add: numeral_eq_Suc)

lemma round256_unfold:
  "round256 [a, b, c, d, e, f, g, h] (k, w) =
     [(h + bsig1 e + ch e f g + k + w) + (bsig0 a + maj a b c), a, b, c,
      d + (h + bsig1 e + ch e f g + k + w), e, f, g]"
  by (simp add: Let_def)

lemma abc_bytes:
  "bytes_of_string ''abc'' =
     [0x61, 0x62, 0x63]"
  by (simp add: bytes_of_string_def byte_of_char_def)

lemma abc_pad:
  "pad [0x61, 0x62, 0x63] =
     [0x61, 0x62, 0x63, 0x80, 0x00, 0x00, 0x00, 0x00, 0x00, 0x00, 0x00, 0x00, 0x00, 0x00, 0x00,
      0x00, 0x00, 0x00, 0x00, 0x00, 0x00, 0x00, 0x00, 0x00, 0x00, 0x00, 0x00, 0x00, 0x00, 0x00,
      0x00, 0x00, 0x00, 0x00, 0x00, 0x00, 0x00, 0x00, 0x00, 0x00, 0x00, 0x00, 0x00, 0x00, 0x00,
      0x00, 0x00, 0x00, 0x00, 0x00, 0x00, 0x00, 0x00, 0x00, 0x00, 0x00, 0x00, 0x00, 0x00, 0x00,
      0x00, 0x00, 0x00, 0x18]"
  by (simp add: pad_def length_bytes_def replicate_numeral)

lemma abc_block:
  "words_of [0x61, 0x62, 0x63, 0x80, 0x00, 0x00, 0x00, 0x00, 0x00, 0x00, 0x00, 0x00, 0x00,
             0x00, 0x00, 0x00, 0x00, 0x00, 0x00, 0x00, 0x00, 0x00, 0x00, 0x00, 0x00, 0x00,
             0x00, 0x00, 0x00, 0x00, 0x00, 0x00, 0x00, 0x00, 0x00, 0x00, 0x00, 0x00, 0x00,
             0x00, 0x00, 0x00, 0x00, 0x00, 0x00, 0x00, 0x00, 0x00, 0x00, 0x00, 0x00, 0x00,
             0x00, 0x00, 0x00, 0x00, 0x00, 0x00, 0x00, 0x00, 0x00, 0x00, 0x00, 0x18] =
     [1633837952, 0, 0, 0, 0, 0, 0, 0, 0, 0, 0, 0, 0, 0, 0, 24]"
  by simp

lemma abc_schedule:
  "schedule 64 [1633837952, 0, 0, 0, 0, 0, 0, 0, 0, 0, 0, 0, 0, 0, 0, 24] =
     [1633837952, 0, 0, 0, 0, 0, 0, 0, 0, 0, 0, 0, 0, 0, 0, 24, 1633837952, 983040, 2108187653,
      1610613702, 1050508152, 25426944, 316456923, 3806512014, 3357629466, 3073800610,
      3854317833, 845560923, 2636160359, 3968280267, 1881225380, 3552024379, 2482346367,
      996719219, 2952069057, 4043988066, 176896406, 1924104970, 2483675966, 610538786,
      2672279444, 4037431130, 1042573945, 657669027, 206005234, 2215296807, 2049510749,
      106709978, 4215179723, 3430291419, 3118885940, 2845390439, 2226839261, 3256115900,
      344409900, 2987358873, 4015503821, 3957764664, 2682456414, 2025622859, 2755645205,
      1720397816, 4004225740, 313650667]"
  by (simp add: schedule_numeral ssig0_def ssig1_def rotr_def)

lemma abc_rounds_0:
  "foldl round256 [1779033703, 3144134277, 1013904242, 2773480762, 1359893119, 2600822924,
                   528734635, 1541459225]
     (zip [1116352408, 1899447441, 3049323471, 3921009573, 961987163, 1508970993, 2453635748,
           2870763221]
          [1633837952, 0, 0, 0, 0, 0, 0, 0]) =
     [2241887071, 3842179968, 725748213, 71342698, 207977081, 2603066369, 1900175533, 1135452741]"
  by (simp add: round256_unfold bsig0_def bsig1_def ch_def maj_def rotr_def del: round256.simps)

lemma abc_rounds_1:
  "foldl round256 [2241887071, 3842179968, 725748213, 71342698, 207977081, 2603066369,
                   1900175533, 1135452741]
     (zip [3624381080, 310598401, 607225278, 1426881987, 1925078388, 2162078206, 2614888103,
           3248222580]
          [0, 0, 0, 0, 0, 0, 0, 24]) =
     [2969183118, 3227803614, 3643992854, 2274437520, 123276749, 194179596, 1952073950,
      509051416]"
  by (simp add: round256_unfold bsig0_def bsig1_def ch_def maj_def rotr_def del: round256.simps)

lemma abc_rounds_2:
  "foldl round256 [2969183118, 3227803614, 3643992854, 2274437520, 123276749, 194179596,
                   1952073950, 509051416]
     (zip [3835390401, 4022224774, 264347078, 604807628, 770255983, 1249150122, 1555081692,
           1996064986]
          [1633837952, 983040, 2108187653, 1610613702, 1050508152, 25426944, 316456923,
           3806512014]) =
     [3319086477, 2812502591, 3261099373, 2647034723, 2856829767, 1240797514, 3777329520,
      2329577776]"
  by (simp add: round256_unfold bsig0_def bsig1_def ch_def maj_def rotr_def del: round256.simps)

lemma abc_rounds_3:
  "foldl round256 [3319086477, 2812502591, 3261099373, 2647034723, 2856829767, 1240797514,
                   3777329520, 2329577776]
     (zip [2554220882, 2821834349, 2952996808, 3210313671, 3336571891, 3584528711, 113926993,
           338241895]
          [3357629466, 3073800610, 3854317833, 845560923, 2636160359, 3968280267, 1881225380,
           3552024379]) =
     [1941126133, 3935906338, 2684750640, 909411017, 3126399250, 17410874, 2917635127,
      1628611511]"
  by (simp add: round256_unfold bsig0_def bsig1_def ch_def maj_def rotr_def del: round256.simps)

lemma abc_rounds_4:
  "foldl round256 [1941126133, 3935906338, 2684750640, 909411017, 3126399250, 17410874,
                   2917635127, 1628611511]
     (zip [666307205, 773529912, 1294757372, 1396182291, 1695183700, 1986661051, 2177026350,
           2456956037]
          [2482346367, 996719219, 2952069057, 4043988066, 176896406, 1924104970, 2483675966,
           610538786]) =
     [2045405306, 1841658506, 887035396, 1101421745, 519815328, 4034403272, 2768741693,
      124953195]"
  by (simp add: round256_unfold bsig0_def bsig1_def ch_def maj_def rotr_def del: round256.simps)

lemma abc_rounds_5:
  "foldl round256 [2045405306, 1841658506, 887035396, 1101421745, 519815328, 4034403272,
                   2768741693, 124953195]
     (zip [2730485921, 2820302411, 3259730800, 3345764771, 3516065817, 3600352804, 4094571909,
           275423344]
          [2672279444, 4037431130, 1042573945, 657669027, 206005234, 2215296807, 2049510749,
           106709978]) =
     [1098003085, 2706117808, 1923828625, 643991573, 4274981830, 3581645993, 3077922209,
      2819559920]"
  by (simp add: round256_unfold bsig0_def bsig1_def ch_def maj_def rotr_def del: round256.simps)

lemma abc_rounds_6:
  "foldl round256 [1098003085, 2706117808, 1923828625, 643991573, 4274981830, 3581645993,
                   3077922209, 2819559920]
     (zip [430227734, 506948616, 659060556, 883997877, 958139571, 1322822218, 1537002063,
           1747873779]
          [4215179723, 3430291419, 3118885940, 2845390439, 2226839261, 3256115900, 344409900,
           2987358873]) =
     [952932627, 1053056219, 4117770203, 270520975, 1422599787, 3842906959, 2672265155,
      1386118400]"
  by (simp add: round256_unfold bsig0_def bsig1_def ch_def maj_def rotr_def del: round256.simps)

lemma abc_rounds_7:
  "foldl round256 [952932627, 1053056219, 4117770203, 270520975, 1422599787, 3842906959,
                   2672265155, 1386118400]
     (zip [1955562222, 2024104815, 2227730452, 2361852424, 2428436474, 2756734187, 3204031479,
           3329325298]
          [4015503821, 3957764664, 2682456414, 2025622859, 2755645205, 1720397816, 4004225740,
           313650667]) =
     [1349398616, 3550093669, 80891244, 3093179625, 1593118500, 4212265488, 2492278198,
      2518632596]"
  by (simp add: round256_unfold bsig0_def bsig1_def ch_def maj_def rotr_def del: round256.simps)

lemma abc_rounds_split:
  "foldl round256 H256 (zip K256
     [1633837952, 0, 0, 0, 0, 0, 0, 0, 0, 0, 0, 0, 0, 0, 0, 24, 1633837952, 983040, 2108187653,
      1610613702, 1050508152, 25426944, 316456923, 3806512014, 3357629466, 3073800610,
      3854317833, 845560923, 2636160359, 3968280267, 1881225380, 3552024379, 2482346367,
      996719219, 2952069057, 4043988066, 176896406, 1924104970, 2483675966, 610538786,
      2672279444, 4037431130, 1042573945, 657669027, 206005234, 2215296807, 2049510749,
      106709978, 4215179723, 3430291419, 3118885940, 2845390439, 2226839261, 3256115900,
      344409900, 2987358873, 4015503821, 3957764664, 2682456414, 2025622859, 2755645205,
      1720397816, 4004225740, 313650667]) =
   (foldl round256 (foldl round256 (foldl round256 (foldl round256 (foldl round256 (foldl round256 (foldl round256 (foldl round256 [1779033703, 3144134277, 1013904242, 2773480762, 1359893119, 2600822924,
                   528734635, 1541459225]
       (zip [1116352408, 1899447441, 3049323471, 3921009573, 961987163, 1508970993, 2453635748,
             2870763221]
            [1633837952, 0, 0, 0, 0, 0, 0, 0]))
       (zip [3624381080, 310598401, 607225278, 1426881987, 1925078388, 2162078206, 2614888103,
             3248222580]
            [0, 0, 0, 0, 0, 0, 0, 24]))
       (zip [3835390401, 4022224774, 264347078, 604807628, 770255983, 1249150122, 1555081692,
             1996064986]
            [1633837952, 983040, 2108187653, 1610613702, 1050508152, 25426944, 316456923,
             3806512014]))
       (zip [2554220882, 2821834349, 2952996808, 3210313671, 3336571891, 3584528711, 113926993,
             338241895]
            [3357629466, 3073800610, 3854317833, 845560923, 2636160359, 3968280267, 1881225380,
             3552024379]))
       (zip [666307205, 773529912, 1294757372, 1396182291, 1695183700, 1986661051, 2177026350,
             2456956037]
            [2482346367, 996719219, 2952069057, 4043988066, 176896406, 1924104970, 2483675966,
             610538786]))
       (zip [2730485921, 2820302411, 3259730800, 3345764771, 3516065817, 3600352804,
             4094571909, 275423344]
            [2672279444, 4037431130, 1042573945, 657669027, 206005234, 2215296807, 2049510749,
             106709978]))
       (zip [430227734, 506948616, 659060556, 883997877, 958139571, 1322822218, 1537002063,
             1747873779]
            [4215179723, 3430291419, 3118885940, 2845390439, 2226839261, 3256115900, 344409900,
             2987358873]))
       (zip [1955562222, 2024104815, 2227730452, 2361852424, 2428436474, 2756734187,
             3204031479, 3329325298]
            [4015503821, 3957764664, 2682456414, 2025622859, 2755645205, 1720397816,
             4004225740, 313650667]))"
  by (simp add: K256_def H256_def del: round256.simps)

lemma abc_rounds:
  "foldl round256 H256 (zip K256
     [1633837952, 0, 0, 0, 0, 0, 0, 0, 0, 0, 0, 0, 0, 0, 0, 24, 1633837952, 983040, 2108187653,
      1610613702, 1050508152, 25426944, 316456923, 3806512014, 3357629466, 3073800610,
      3854317833, 845560923, 2636160359, 3968280267, 1881225380, 3552024379, 2482346367,
      996719219, 2952069057, 4043988066, 176896406, 1924104970, 2483675966, 610538786,
      2672279444, 4037431130, 1042573945, 657669027, 206005234, 2215296807, 2049510749,
      106709978, 4215179723, 3430291419, 3118885940, 2845390439, 2226839261, 3256115900,
      344409900, 2987358873, 4015503821, 3957764664, 2682456414, 2025622859, 2755645205,
      1720397816, 4004225740, 313650667]) =
     [1349398616, 3550093669, 80891244, 3093179625, 1593118500, 4212265488, 2492278198,
      2518632596]"
  unfolding abc_rounds_split
  unfolding abc_rounds_0 abc_rounds_1 abc_rounds_2 abc_rounds_3 abc_rounds_4 abc_rounds_5
    abc_rounds_6 abc_rounds_7
  by (rule refl)

lemma abc_SHA256:
  "SHA256 (bytes_of_string ''abc'') =
     [3128432319, 2399260650, 1094795486, 1571693091, 2953011619, 2518121116, 3021012833,
      4060091821]"
proof -
  have "SHA256 (bytes_of_string ''abc'') =
          map2 (+) H256 [1349398616, 3550093669, 80891244, 3093179625, 1593118500,
                           4212265488, 2492278198, 2518632596]"
    by (simp add: SHA256_def abc_bytes Let_def abc_pad compress_def abc_block abc_schedule abc_rounds
        del: words_of.simps)
  then show ?thesis by (simp add: H256_def)
qed

lemma abc_digest:
  "sha256_Sum256 (bytes_of_string ''abc'') =
     [0xba, 0x78, 0x16, 0xbf, 0x8f, 0x01, 0xcf, 0xea, 0x41, 0x41, 0x40, 0xde, 0x5d, 0xae, 0x22,
      0x23, 0xb0, 0x03, 0x61, 0xa3, 0x96, 0x17, 0x7a, 0x9c, 0xb4, 0x10, 0xff, 0x61, 0xf2, 0x00,
      0x15, 0xad]"
  by (simp add: sha256_Sum256_def abc_SHA256 word_bytes_def)

lemma key32_bytes:
  "bytes_of_string ''0123456789abcdef0123456789abcdef'' =
     [0x30, 0x31, 0x32, 0x33, 0x34, 0x35, 0x36, 0x37, 0x38, 0x39, 0x61, 0x62, 0x63, 0x64, 0x65,
      0x66, 0x30, 0x31, 0x32, 0x33, 0x34, 0x35, 0x36, 0x37, 0x38, 0x39, 0x61, 0x62, 0x63, 0x64,
      0x65, 0x66]"
  by (simp add: bytes_of_string_def byte_of_char_def)

lemma key32_pad:
  "pad [0x30, 0x31, 0x32, 0x33, 0x34, 0x35, 0x36, 0x37, 0x38, 0x39, 0x61, 0x62, 0x63, 0x64,
        0x65, 0x66, 0x30, 0x31, 0x32, 0x33, 0x34, 0x35, 0x36, 0x37, 0x38, 0x39, 0x61, 0x62,
        0x63, 0x64, 0x65, 0x66] =
     [0x30, 0x31, 0x32, 0x33, 0x34, 0x35, 0x36, 0x37, 0x38, 0x39, 0x61, 0x62, 0x63, 0x64, 0x65,
      0x66, 0x30, 0x31, 0x32, 0x33, 0x34, 0x35, 0x36, 0x37, 0x38, 0x39, 0x61, 0x62, 0x63, 0x64,
      0x65, 0x66, 0x80, 0x00, 0x00, 0x00, 0x00, 0x00, 0x00, 0x00, 0x00, 0x00, 0x00, 0x00, 0x00,
      0x00, 0x00, 0x00, 0x00, 0x00, 0x00, 0x00, 0x00, 0x00, 0x00, 0x00, 0x00, 0x00, 0x00, 0x00,
      0x00, 0x00, 0x01, 0x00]"
  by (simp add: pad_def length_bytes_def replicate_numeral)

lemma key32_block:
  "words_of [0x30, 0x31, 0x32, 0x33, 0x34, 0x35, 0x36, 0x37, 0x38, 0x39, 0x61, 0x62, 0x63,
             0x64, 0x65, 0x66, 0x30, 0x31, 0x32, 0x33, 0x34, 0x35, 0x36, 0x37, 0x38, 0x39,
             0x61, 0x62, 0x63, 0x64, 0x65, 0x66, 0x80, 0x00, 0x00, 0x00, 0x00, 0x00, 0x00,
             0x00, 0x00, 0x00, 0x00, 0x00, 0x00, 0x00, 0x00, 0x00, 0x00, 0x00, 0x00, 0x00,
             0x00, 0x00, 0x00, 0x00, 0x00, 0x00, 0x00, 0x00, 0x00, 0x00, 0x01, 0x00] =
     [808530483, 875902519, 943284578, 1667523942, 808530483, 875902519, 943284578, 1667523942,
      2147483648, 0, 0, 0, 0, 0, 0, 256]"
  by simp

lemma key32_schedule:
  "schedule 64 [808530483, 875902519, 943284578, 1667523942, 808530483, 875902519, 943284578,
               1667523942, 2147483648, 0, 0, 0, 0, 0, 0, 256] =
     [808530483, 875902519, 943284578, 1667523942, 808530483, 875902519, 943284578, 1667523942,
      2147483648, 0, 0, 0, 0, 0, 0, 256, 1435775962, 3489990423, 2981118869, 3014394071,
      2133341912, 1338166202, 802568605, 112351211, 737922742, 314151599, 1379086152,
      2049899591, 1109162830, 3515618186, 3117467232, 1785421090, 1485137241, 353901991,
      51911383, 3050828745, 779043163, 3271969916, 636547047, 3913153129, 3824385208,
      2839890824, 413077860, 1062303122, 2066456215, 1942169284, 4268195940, 654119274,
      2108498121, 18484121, 4025468799, 3649795518, 815288304, 2262357864, 728234131,
      2331750982, 1056357161, 1476007934, 4229468090, 2134236974, 2806553616, 700538103,
      2077202884, 3244257109]"
  by (simp add: schedule_numeral ssig0_def ssig1_def rotr_def)

lemma key32_rounds_0:
  "foldl round256 [1779033703, 3144134277, 1013904242, 2773480762, 1359893119, 2600822924,
                   528734635, 1541459225]
     (zip [1116352408, 1899447441, 3049323471, 3921009573, 961987163, 1508970993, 2453635748,
           2870763221]
          [808530483, 875902519, 943284578, 1667523942, 808530483, 875902519, 943284578,
           1667523942]) =
     [3105088982, 2589708680, 1309735655, 2584659678, 3600946770, 812119000, 2491562982,
      494379820]"
  by (simp add: round256_unfold bsig0_def bsig1_def ch_def maj_def rotr_def del: round256.simps)

lemma key32_rounds_1:
  "foldl round256 [3105088982, 2589708680, 1309735655, 2584659678, 3600946770, 812119000,
                   2491562982, 494379820]
     (zip [3624381080, 310598401, 607225278, 1426881987, 1925078388, 2162078206, 2614888103,
           3248222580]
          [2147483648, 0, 0, 0, 0, 0, 0, 256]) =
     [3088662289, 2532152109, 709946793, 810335371, 2085193459, 3816889521, 1795397773,
      1078575258]"
  by (simp add: round256_unfold bsig0_def bsig1_def ch_def maj_def rotr_def del: round256.simps)

lemma key32_rounds_2:
  "foldl round256 [3088662289, 2532152109, 709946793, 810335371, 2085193459, 3816889521,
                   1795397773, 1078575258]
     (zip [3835390401, 4022224774, 264347078, 604807628, 770255983, 1249150122, 1555081692,
           1996064986]
          [1435775962, 3489990423, 2981118869, 3014394071, 2133341912, 1338166202, 802568605,
           112351211]) =
     [2673169789, 605279339, 551108318, 145061619, 2910075809, 3452102954, 3330067306,
      1835734197]"
  by (simp add: round256_unfold bsig0_def bsig1_def ch_def maj_def rotr_def del: round256.simps)

lemma key32_rounds_3:
  "foldl round256 [2673169789, 605279339, 551108318, 145061619, 2910075809, 3452102954,
                   3330067306, 1835734197]
     (zip [2554220882, 2821834349, 2952996808, 3210313671, 3336571891, 3584528711, 113926993,
           338241895]
          [737922742, 314151599, 1379086152, 2049899591, 1109162830, 3515618186, 3117467232,
           1785421090]) =
     [2491102175, 2117894454, 2219391957, 989355428, 3697339743, 2439693830, 3611850018,
      2005649323]"
  by (simp add: round256_unfold bsig0_def bsig1_def ch_def maj_def rotr_def del: round256.simps)

lemma key32_rounds_4:
  "foldl round256 [2491102175, 2117894454, 2219391957, 989355428, 3697339743, 2439693830,
                   3611850018, 2005649323]
     (zip [666307205, 773529912, 1294757372, 1396182291, 1695183700, 1986661051, 2177026350,
           2456956037]
          [1485137241, 353901991, 51911383, 3050828745, 779043163, 3271969916, 636547047,
           3913153129]) =
     [478713933, 1194304182, 2186833288, 2687497169, 2505610658, 732062739, 3288674367,
      1027416669]"
  by (simp add: round256_unfold bsig0_def bsig1_def ch_def maj_def rotr_def del: round256.simps)

lemma key32_rounds_5:
  "foldl round256 [478713933, 1194304182, 2186833288, 2687497169, 2505610658, 732062739,
                   3288674367, 1027416669]
     (zip [2730485921, 2820302411, 3259730800, 3345764771, 3516065817, 3600352804, 4094571909,
           275423344]
          [3824385208, 2839890824, 413077860, 1062303122, 2066456215, 1942169284, 4268195940,
           654119274]) =
     [4063361971, 1095426707, 3254048889, 2421002824, 529009950, 281742819, 2684634139,
      3370562939]"
  by (simp add: round256_unfold bsig0_def bsig1_def ch_def maj_def rotr_def del: round256.simps)

lemma key32_rounds_6:
  "foldl round256 [4063361971, 1095426707, 3254048889, 2421002824, 529009950, 281742819,
                   2684634139, 3370562939]
     (zip [430227734, 506948616, 659060556, 883997877, 958139571, 1322822218, 1537002063,
           1747873779]
          [2108498121, 18484121, 4025468799, 3649795518, 815288304, 2262357864, 728234131,
           2331750982]) =
     [4191342533, 1604170576, 119604767, 491239098, 1818242218, 898107722, 13369009, 1040975251]"
  by (simp add: round256_unfold bsig0_def bsig1_def ch_def maj_def rotr_def del: round256.simps)

lemma key32_rounds_7:
  "foldl round256 [4191342533, 1604170576, 119604767, 491239098, 1818242218, 898107722,
                   13369009, 1040975251]
     (zip [1955562222, 2024104815, 2227730452, 2361852424, 2428436474, 2756734187, 3204031479,
           3329325298]
          [1056357161, 1476007934, 4229468090, 2134236974, 2806553616, 700538103, 2077202884,
           3244257109]) =
     [3567769308, 3722460401, 3978949108, 661842783, 1988280076, 2486890256, 2775842944,
      4102089440]"
  by (simp add: round256_unfold bsig0_def bsig1_def ch_def maj_def rotr_def del: round256.simps)

lemma key32_rounds_split:
  "foldl round256 H256 (zip K256
     [808530483, 875902519, 943284578, 1667523942, 808530483, 875902519, 943284578, 1667523942,
      2147483648, 0, 0, 0, 0, 0, 0, 256, 1435775962, 3489990423, 2981118869, 3014394071,
      2133341912, 1338166202, 802568605, 112351211, 737922742, 314151599, 1379086152,
      2049899591, 1109162830, 3515618186, 3117467232, 1785421090, 1485137241, 353901991,
      51911383, 3050828745, 779043163, 3271969916, 636547047, 3913153129, 3824385208,
      2839890824, 413077860, 1062303122, 2066456215, 1942169284, 4268195940, 654119274,
      2108498121, 18484121, 4025468799, 3649795518, 815288304, 2262357864, 728234131,
      2331750982, 1056357161, 1476007934, 4229468090, 2134236974, 2806553616, 700538103,
      2077202884, 3244257109]) =
   (foldl round256 (foldl round256 (foldl round256 (foldl round256 (foldl round256 (foldl round256 (foldl round256 (foldl round256 [1779033703, 3144134277, 1013904242, 2773480762, 1359893119, 2600822924,
                   528734635, 1541459225]
       (zip [1116352408, 1899447441, 3049323471, 3921009573, 961987163, 1508970993, 2453635748,
             2870763221]
            [808530483, 875902519, 943284578, 1667523942, 808530483, 875902519, 943284578,
             1667523942]))
       (zip [3624381080, 310598401, 607225278, 1426881987, 1925078388, 2162078206, 2614888103,
             3248222580]
            [2147483648, 0, 0, 0, 0, 0, 0, 256]))
       (zip [3835390401, 4022224774, 264347078, 604807628, 770255983, 1249150122, 1555081692,
             1996064986]
            [1435775962, 3489990423, 2981118869, 3014394071, 2133341912, 1338166202, 802568605,
             112351211]))
       (zip [2554220882, 2821834349, 2952996808, 3210313671, 3336571891, 3584528711, 113926993,
             338241895]
            [737922742, 314151599, 1379086152, 2049899591, 1109162830, 3515618186, 3117467232,
             1785421090]))
       (zip [666307205, 773529912, 1294757372, 1396182291, 1695183700, 1986661051, 2177026350,
             2456956037]
            [1485137241, 353901991, 51911383, 3050828745, 779043163, 3271969916, 636547047,
             3913153129]))
       (zip [2730485921, 2820302411, 3259730800, 3345764771, 3516065817, 3600352804,
             4094571909, 275423344]
            [3824385208, 2839890824, 413077860, 1062303122, 2066456215, 1942169284, 4268195940,
             654119274]))
       (zip [430227734, 506948616, 659060556, 883997877, 958139571, 1322822218, 1537002063,
             1747873779]
            [2108498121, 18484121, 4025468799, 3649795518, 815288304, 2262357864, 728234131,
             2331750982]))
       (zip [1955562222, 2024104815, 2227730452, 2361852424, 2428436474, 2756734187,
             3204031479, 3329325298]
            [1056357161, 1476007934, 4229468090, 2134236974, 2806553616, 700538103, 2077202884,
             3244257109]))"
  by (simp add: K256_def H256_def del: round256.simps)

lemma key32_rounds:
  "foldl round256 H256 (zip K256
     [808530483, 875902519, 943284578, 1667523942, 808530483, 875902519, 943284578, 1667523942,
      2147483648, 0, 0, 0, 0, 0, 0, 256, 1435775962, 3489990423, 2981118869, 3014394071,
      2133341912, 1338166202, 802568605, 112351211, 737922742, 314151599, 1379086152,
      2049899591, 1109162830, 3515618186, 3117467232, 1785421090, 1485137241, 353901991,
      51911383, 3050828745, 779043163, 3271969916, 636547047, 3913153129, 3824385208,
      2839890824, 413077860, 1062303122, 2066456215, 1942169284, 4268195940, 654119274,
      2108498121, 18484121, 4025468799, 3649795518, 815288304, 2262357864, 728234131,
      2331750982, 1056357161, 1476007934, 4229468090, 2134236974, 2806553616, 700538103,
      2077202884, 3244257109]) =
     [3567769308, 3722460401, 3978949108, 661842783, 1988280076, 2486890256, 2775842944,
      4102089440]"
  unfolding key32_rounds_split
  unfolding key32_rounds_0 key32_rounds_1 key32_rounds_2 key32_rounds_3 key32_rounds_4 key32_rounds_5
    key32_rounds_6 key32_rounds_7
  by (rule refl)

lemma key32_SHA256:
  "SHA256 (bytes_of_string ''0123456789abcdef0123456789abcdef'') =
     [1051835715, 2571627382, 697886054, 3435323545, 3348173195, 792745884, 3304577579,
      1348581369]"
proof -
  have "SHA256 (bytes_of_string ''0123456789abcdef0123456789abcdef'') =
          map2 (+) H256 [3567769308, 3722460401, 3978949108, 661842783, 1988280076,
                           2486890256, 2775842944, 4102089440]"
    by (simp add: SHA256_def key32_bytes Let_def key32_pad compress_def key32_block key32_schedule key32_rounds
        del: words_of.simps)
  then show ?thesis by (simp add: H256_def)
qed

lemma key32_digest:
  "sha256_Sum256 (bytes_of_string ''0123456789abcdef0123456789abcdef'') =
     [0x3e, 0xb1, 0xbd, 0x43, 0x99, 0x47, 0xeb, 0x76, 0x29, 0x98, 0xe5, 0x66, 0xcc, 0xc2, 0xe0,
      0x99, 0xc7, 0x91, 0x11, 0x8b, 0x2f, 0x40, 0x57, 0x9c, 0xc4, 0xf7, 0xda, 0x2b, 0x50, 0x61,
      0xb7, 0xf9]"
  by (simp add: sha256_Sum256_def key32_SHA256 word_bytes_def)

section \<open>The serial token\<close>

lemma insert_dashes_prefix: "\<exists>t. insert_dashes i s xs = s @ t"
proof (induction xs arbitrary: i s)
  case Nil
  then show ?case by simp
next
  case (Cons x xs)
  obtain t where "insert_dashes (Suc i) ((if 0 < i \<and> i mod 5 = 0 then s @ ''-'' else s) @ [x]) xs
      = ((if 0 < i \<and> i mod 5 = 0 then s @ ''-'' else s) @ [x]) @ t"
    using Cons.IH by blast
  then show ?case by (cases "0 < i \<and> i mod 5 = 0") auto
qed

lemma group5:
  assumes "i mod 5 = 0"
  shows "insert_dashes i s (a # b # c # d # e # rest) =
           insert_dashes (i + 5) ((if 0 < i then s @ ''-'' else s) @ [a, b, c, d, e]) rest"
proof -
  have m: "Suc i mod 5 \<noteq> 0" "Suc (Suc i) mod 5 \<noteq> 0" "Suc (Suc (Suc i)) mod 5 \<noteq> 0"
    "Suc (Suc (Suc (Suc i))) mod 5 \<noteq> 0"
    using assms by presburger+
  have n: "i + 5 = Suc (Suc (Suc (Suc (Suc i))))" by simp
  show ?thesis unfolding n using assms m by simp
qed

lemma split5:
  assumes "5 \<le> length xs"
  shows "\<exists>a b c d e r. xs = a # b # c # d # e # r"
proof -
  from assms obtain a t1 where 1: "xs = a # t1" by (cases xs) auto
  with assms obtain b t2 where 2: "t1 = b # t2" by (cases t1) auto
  with 1 assms obtain c t3 where 3: "t2 = c # t3" by (cases t2) auto
  with 1 2 assms obtain d t4 where 4: "t3 = d # t4" by (cases t3) auto
  with 1 2 3 assms obtain e t5 where 5: "t4 = e # t5" by (cases t4) auto
  show ?thesis using 1 2 3 4 5 by blast
qed

lemma dashes_of_32:
  assumes "length h = 32"
  shows "take 23 (insert_dashes 0 [] h) =
     take 5 h @ ''-'' @ take 5 (drop 5 h) @ ''-'' @ take 5 (drop 10 h) @ ''-'' @ take 5 (drop 15 h)"
proof -
  obtain a0 a1 a2 a3 a4 r1 where h1: "h = a0 # a1 # a2 # a3 # a4 # r1"
    using split5 [of h] assms by auto
  obtain b0 b1 b2 b3 b4 r2 where h2: "r1 = b0 # b1 # b2 # b3 # b4 # r2"
    using split5 [of r1] assms h1 by auto
  obtain c0 c1 c2 c3 c4 r3 where h3: "r2 = c0 # c1 # c2 # c3 # c4 # r3"
    using split5 [of r2] assms h1 h2 by auto
  obtain d0 d1 d2 d3 d4 r4 where h4: "r3 = d0 # d1 # d2 # d3 # d4 # r4"
    using split5 [of r3] assms h1 h2 h3 by auto
  let ?g1 = "[a0, a1, a2, a3, a4]" and ?g2 = "[b0, b1, b2, b3, b4]"
    and ?g3 = "[c0, c1, c2, c3, c4]" and ?g4 = "[d0, d1, d2, d3, d4]"
  have e1: "insert_dashes 0 [] h = insert_dashes 5 ?g1 r1"
    unfolding h1 using group5 [of 0 "[]" a0 a1 a2 a3 a4 r1]
    by (simp del: insert_dashes.simps)
  have e2: "insert_dashes 5 ?g1 r1 = insert_dashes 10 (?g1 @ ''-'' @ ?g2) r2"
    unfolding h2 using group5 [of 5 ?g1 b0 b1 b2 b3 b4 r2]
    by (simp del: insert_dashes.simps)
  have e3: "insert_dashes 10 (?g1 @ ''-'' @ ?g2) r2
              = insert_dashes 15 (?g1 @ ''-'' @ ?g2 @ ''-'' @ ?g3) r3"
    unfolding h3 using group5 [of 10 "?g1 @ ''-'' @ ?g2" c0 c1 c2 c3 c4 r3]
    by (simp del: insert_dashes.simps)
  have e4: "insert_dashes 15 (?g1 @ ''-'' @ ?g2 @ ''-'' @ ?g3) r3
              = insert_dashes 20 (?g1 @ ''-'' @ ?g2 @ ''-'' @ ?g3 @ ''-'' @ ?g4) r4"
    unfolding h4 using group5 [of 15 "?g1 @ ''-'' @ ?g2 @ ''-'' @ ?g3" d0 d1 d2 d3 d4 r4]
    by (simp del: insert_dashes.simps)
  obtain t where e5: "insert_dashes 20 (?g1 @ ''-'' @ ?g2 @ ''-'' @ ?g3 @ ''-'' @ ?g4) r4
                        = (?g1 @ ''-'' @ ?g2 @ ''-'' @ ?g3 @ ''-'' @ ?g4) @ t"
    using insert_dashes_prefix by blast
  have "insert_dashes 0 [] h = (?g1 @ ''-'' @ ?g2 @ ''-'' @ ?g3 @ ''-'' @ ?g4) @ t"
    by (simp only: e1 e2 e3 e4 e5)
  then have "take 23 (insert_dashes 0 [] h) = ?g1 @ ''-'' @ ?g2 @ ''-'' @ ?g3 @ ''-'' @ ?g4"
    by simp
  moreover have "take 5 h = ?g1" "take 5 (drop 5 h) = ?g2" "take 5 (drop 10 h) = ?g3"
    "take 5 (drop 15 h) = ?g4"
    by (simp_all add: h1 h2 h3 h4)
  ultimately show ?thesis by (simp only:)
qed

lemma length_array16: "length (array16 h) = 16"
  by (simp add: array16_def)

lemma length_hex: "length (hex_EncodeToString bs) = 2 * length bs"
  by (induction bs) (simp_all add: hex_EncodeToString_def)

lemma nibble_hi: "unat (drop_bit 4 (v :: byte)) < 16"
proof -
  have "unat (drop_bit 4 v) = unat v div 16"
    by (simp add: drop_bit_eq_div unat_div)
  moreover have "unat v < 256" using unsigned_less [of v] by simp
  ultimately show ?thesis by simp
qed

lemma nibble_lo: "unat ((v :: byte) AND 0x0f) < 16"
proof -
  have "unat (v AND 15) \<le> unat (15 :: byte)"
    by (rule word_and_le1 [THEN word_le_nat_alt [THEN iffD1]])
  then show ?thesis by simp
qed

lemma upper_hextable_all: "\<forall>c \<in> set hextable. upper_char c \<in> upper_hex"
  by (simp add: hextable_def upper_char_def char_of_eq_iff upper_hex_def)

lemma upper_hextable: "n < 16 \<Longrightarrow> upper_char (hextable ! n) \<in> upper_hex"
proof -
  assume "n < 16"
  then have "hextable ! n \<in> set hextable"
    by (intro nth_mem) (simp add: hextable_def)
  then show ?thesis using upper_hextable_all by blast
qed

lemma hex_chars: "c \<in> set (hex_EncodeToString bs) \<Longrightarrow> upper_char c \<in> upper_hex"
  by (induction bs)
     (auto simp add: hex_EncodeToString_def upper_hextable nibble_hi nibble_lo)

lemma GenerateSerial_groups:
  "\<exists>g1 g2 g3 g4.
     GenerateSerial P cm pcId productName maxDays = g1 @ ''-'' @ g2 @ ''-'' @ g3 @ ''-'' @ g4
     \<and> serial_group g1 \<and> serial_group g2 \<and> serial_group g3 \<and> serial_group g4"
proof -
  define h where "h = hex_EncodeToString (array16 (md5_Sum P (bytes_of_string
      (pcId @ ''|'' @ productName @ ''|'' @ decimal_int (sint maxDays) @ ''|''
         @ hex_EncodeToString (DeriveSerialKey P cm)))))"
  have len: "length h = 32" by (simp add: h_def length_hex length_array16)
  have up: "\<And>k n. set (map upper_char (take n (drop k h))) \<subseteq> upper_hex"
    using hex_chars [of _ "array16 (md5_Sum P (bytes_of_string
      (pcId @ ''|'' @ productName @ ''|'' @ decimal_int (sint maxDays) @ ''|''
         @ hex_EncodeToString (DeriveSerialKey P cm))))"]
    by (auto simp add: h_def dest!: in_set_takeD in_set_dropD)
  have "GenerateSerial P cm pcId productName maxDays
          = map upper_char (take 23 (insert_dashes 0 [] h))"
    by (simp add: GenerateSerial_def h_def strings_ToUpper_def Let_def)
  also have "\<dots> = map upper_char (take 5 h) @ ''-'' @ map upper_char (take 5 (drop 5 h)) @ ''-''
      @ map upper_char (take 5 (drop 10 h)) @ ''-'' @ map upper_char (take 5 (drop 15 h))"
    by (simp add: dashes_of_32 [OF len] upper_char_def)
  finally show ?thesis
    using up [of 5 0] up [of 5 5] up [of 5 10] up [of 5 15] len
    unfolding serial_group_def
    by (intro exI [of _ "map upper_char (take 5 h)"]
        exI [of _ "map upper_char (take 5 (drop 5 h))"]
        exI [of _ "map upper_char (take 5 (drop 10 h))"]
        exI [of _ "map upper_char (take 5 (drop 15 h))"])
       simp
qed

lemma length_GenerateSerial: "length (GenerateSerial P cm pcId productName maxDays) = 23"
proof -
  obtain g1 g2 g3 g4
    where "GenerateSerial P cm pcId productName maxDays
             = g1 @ ''-'' @ g2 @ ''-'' @ g3 @ ''-'' @ g4"
    and "serial_group g1" "serial_group g2" "serial_group g3" "serial_group g4"
    using GenerateSerial_groups [of P cm pcId productName maxDays] by blast
  then show ?thesis by (simp add: serial_group_def)
qed

section \<open>Envelope, store and validation: supporting lemmas\<close>

lemma length_rand_Read: "length (rand_Read ent n) = n"
  by (simp add: rand_Read_def)

lemma Encrypt_eq:
  assumes "length (DeriveEncryptionKey P cm) = 32"
  shows "Encrypt P cm ent x =
           Inr (rand_Read ent 12 @ gcm_Seal P (DeriveEncryptionKey P cm) (rand_Read ent 12) x)"
  using assms by (simp add: Encrypt_def aes_NewCipher_def gcm_NonceSize_def Let_def)

lemma Decrypt_envelope:
  assumes "length (DeriveEncryptionKey P cm) = 32" and "length nonce = 12"
  shows "Decrypt P cm (nonce @ c) =
           (case gcm_Open P (DeriveEncryptionKey P cm) nonce c of
              None \<Rightarrow> Inl AuthenticationFailed | Some x \<Rightarrow> Inr x)"
  using assms by (simp add: Decrypt_def aes_NewCipher_def gcm_NonceSize_def)

lemma Decrypt_Encrypt:
  assumes "aead_correct P" and "length (DeriveEncryptionKey P cm) = 32"
  shows "\<exists>e. Encrypt P cm ent x = Inr e \<and> Decrypt P cm e = Inr x"
proof -
  let ?k = "DeriveEncryptionKey P cm" and ?n = "rand_Read ent 12"
  have "gcm_Open P ?k ?n (gcm_Seal P ?k ?n x) = Some x"
    using assms by (simp add: aead_correct_def length_rand_Read)
  then show ?thesis
    by (simp add: Encrypt_eq [OF assms(2)] Decrypt_envelope [OF assms(2)] length_rand_Read)
qed

lemma key_length: "pbkdf2_length P \<Longrightarrow> length (DeriveEncryptionKey P cm) = 32"
  by (simp add: pbkdf2_length_def DeriveEncryptionKey_def)

lemma saveLicense_ok:
  assumes "libraries_ok P" and "\<not> mkdir_fails w f" and "\<not> write_fails w f"
  shows "\<exists>w'. saveLicense P m w ent l f = (w', None) \<and> stored P m w' f (omitempty l)
           \<and> (\<forall>g. g \<noteq> f \<longrightarrow> files w' g = files w g)
           \<and> mkdir_fails w' = mkdir_fails w \<and> write_fails w' = write_fails w
           \<and> env_LICENSE_DIR w' = env_LICENSE_DIR w \<and> getwd w' = getwd w"
proof -
  from assms(1) obtain data where d: "json_MarshalIndent P l = Some data"
    "json_Unmarshal P data = Some (omitempty l)"
    unfolding libraries_ok_def json_roundtrip_def by blast
  from assms(1) obtain e where e: "Encrypt P (crypto m) ent data = Inr e"
    "Decrypt P (crypto m) e = Inr data"
    using Decrypt_Encrypt [of P "crypto m" ent data] key_length [of P "crypto m"]
    unfolding libraries_ok_def by blast
  show ?thesis
    using assms(2,3) d e by (simp add: saveLicense_def stored_def)
qed

lemma stored_load:
  assumes "stored P m w f l"
  obtains enc data where "files w f = Some enc" "Decrypt P (crypto m) enc = Inr data"
    "json_Unmarshal P data = Some l"
  using assms unfolding stored_def by (auto split: option.splits sum.splits)

lemma rv_wrong_pc:
  assumes "stored P m w f l" and "PCId l \<noteq> pc"
  shows "readAndVerifyLicense P m w now ent f pc = (w, Inl WrongPC)"
proof -
  from assms(1) obtain enc data where "files w f = Some enc" "Decrypt P (crypto m) enc = Inr data"
    "json_Unmarshal P data = Some l" by (rule stored_load)
  then show ?thesis using assms(2) by (simp add: readAndVerifyLicense_def)
qed

lemma rv_serial_invalid:
  assumes "stored P m w f l" and "PCId l = pc"
    and "Serial l \<noteq> GenerateSerial P (crypto m) pc (ProductName l) (MaxDays l)"
  shows "readAndVerifyLicense P m w now ent f pc = (w, Inl SerialInvalid)"
proof -
  from assms(1) obtain enc data where "files w f = Some enc" "Decrypt P (crypto m) enc = Inr data"
    "json_Unmarshal P data = Some l" by (rule stored_load)
  then show ?thesis using assms(2,3) by (simp add: readAndVerifyLicense_def)
qed

lemma rv_rollback:
  assumes "stored P m w f l" and "bound_to P m pc l" and "IsActivated l"
    and "LastUsedDate l \<noteq> []" and "RFC3339 now < LastUsedDate l"
  shows "readAndVerifyLicense P m w now ent f pc = (w, Inl RolledBack)"
proof -
  from assms(1) obtain enc data where "files w f = Some enc" "Decrypt P (crypto m) enc = Inr data"
    "json_Unmarshal P data = Some l" by (rule stored_load)
  moreover have "LastUsedDate l \<noteq> RFC3339 now" using assms(5) by auto
  ultimately show ?thesis
    using assms(2-5) by (simp add: readAndVerifyLicense_def bound_to_def Let_def)
qed

lemma rv_activate:
  assumes "stored P m w f l" and "bound_to P m pc l" and "\<not> IsActivated l"
  shows "readAndVerifyLicense P m w now ent f pc = expire_or_save P m w ent (activated l now) f"
proof -
  from assms(1) obtain enc data where "files w f = Some enc" "Decrypt P (crypto m) enc = Inr data"
    "json_Unmarshal P data = Some l" by (rule stored_load)
  then show ?thesis
    using assms(2,3) by (simp add: readAndVerifyLicense_def bound_to_def Let_def activated_def)
qed

lemma rv_same_instant:
  assumes "stored P m w f l" and "bound_to P m pc l" and "IsActivated l"
    and "LastUsedDate l \<noteq> []" and "LastUsedDate l = RFC3339 now"
  shows "readAndVerifyLicense P m w now ent f pc =
           (case saveLicense P m w ent (l\<lparr>RunCount := RunCount l + 1\<rparr>) f of
              (w', Some e) \<Rightarrow> (w', Inl (UpdateFailed e))
            | (w', None) \<Rightarrow> (w', Inr (l\<lparr>RunCount := RunCount l + 1\<rparr>)))"
proof -
  from assms(1) obtain enc data where "files w f = Some enc" "Decrypt P (crypto m) enc = Inr data"
    "json_Unmarshal P data = Some l" by (rule stored_load)
  then show ?thesis
    using assms(2-5) by (simp add: readAndVerifyLicense_def bound_to_def Let_def)
qed

lemma rv_used_again:
  assumes "stored P m w f l" and "bound_to P m pc l" and "IsActivated l"
    and "LastUsedDate l = [] \<or> LastUsedDate l < RFC3339 now"
  shows "readAndVerifyLicense P m w now ent f pc = expire_or_save P m w ent (used_again l now) f"
proof -
  from assms(1) obtain enc data where "files w f = Some enc" "Decrypt P (crypto m) enc = Inr data"
    "json_Unmarshal P data = Some l" by (rule stored_load)
  moreover have "LastUsedDate l \<noteq> [] \<Longrightarrow> LastUsedDate l \<noteq> RFC3339 now"
    and "LastUsedDate l \<noteq> [] \<Longrightarrow> \<not> RFC3339 now < LastUsedDate l"
    using assms(4) by auto
  ultimately show ?thesis
    using assms(2,3)
    by (cases "UsageMap l")
       (auto simp add: readAndVerifyLicense_def bound_to_def Let_def used_again_def rebuilt_map_def
          with_map_def)
qed

lemma expire_or_save_ok:
  assumes "libraries_ok P" and "\<not> mkdir_fails w f" and "\<not> write_fails w f"
    and "IsLifetime l \<or> int (length (UsageHistory l)) \<le> sint (MaxDays l)"
  shows "\<exists>w'. expire_or_save P m w ent l f = (w', Inr l) \<and> stored P m w' f (omitempty l)
           \<and> mkdir_fails w' = mkdir_fails w \<and> write_fails w' = write_fails w"
proof -
  obtain w' where "saveLicense P m w ent l f = (w', None)" "stored P m w' f (omitempty l)"
    "mkdir_fails w' = mkdir_fails w" "write_fails w' = write_fails w"
    using saveLicense_ok [OF assms(1-3)] by blast
  then show ?thesis using assms(4) by (auto simp add: expire_or_save_def)
qed

lemma expire_or_save_expired:
  assumes "\<not> IsLifetime l" and "sint (MaxDays l) < int (length (UsageHistory l))"
  shows "expire_or_save P m w ent l f = (w, Inl (Expired (length (UsageHistory l)) (MaxDays l)))"
  using assms by (simp add: expire_or_save_def)

lemma keys_map_assign: "fst ` set (map_assign um k v) = insert k (fst ` set um)"
proof -
  have "set (map fst (map_assign um k v)) = insert k (set (map fst um))"
    unfolding map_assign_def update_keys by auto
  then show ?thesis by simp
qed

lemma map_index_assign: "map_index (map_assign um k v) k' = (if k' = k then v else map_index um k')"
  by (simp add: map_assign_def map_index_def update_conv')

lemma map_index_keys: "map_index um k \<Longrightarrow> k \<in> fst ` set um"
  by (auto simp add: map_index_def split: option.splits dest: map_of_SomeD intro: rev_image_eqI)

lemma keys_fold_assign:
  "fst ` set (fold (\<lambda>date um. map_assign um date True) h um) = fst ` set um \<union> set h"
  by (induction h arbitrary: um) (auto simp add: keys_map_assign)

lemma map_index_fold_assign:
  "map_index (fold (\<lambda>date um. map_assign um date True) h um) k \<longleftrightarrow> k \<in> set h \<or> map_index um k"
  by (induction h arbitrary: um) (auto simp add: map_index_assign)

lemma map_index_Nil: "\<not> map_index [] k"
  by (simp add: map_index_def)

lemma keys_rebuilt:
  assumes "usage_synced l"
  shows "fst ` set (rebuilt_map l) = set (UsageHistory l)"
  using assms
  by (cases "UsageMap l") (simp_all add: usage_synced_def rebuilt_map_def keys_fold_assign)

lemma map_index_rebuilt:
  assumes "usage_synced l"
  shows "map_index (rebuilt_map l) k \<longleftrightarrow> k \<in> set (UsageHistory l)"
proof (cases "UsageMap l")
  case None
  then show ?thesis by (simp add: rebuilt_map_def map_index_fold_assign map_index_Nil)
next
  case (Some um)
  then have "fst ` set um = set (UsageHistory l)" and "\<forall>k \<in> set (UsageHistory l). map_index um k"
    using assms by (simp_all add: usage_synced_def list_all_iff)
  then show ?thesis using Some map_index_keys [of um k] by (auto simp add: rebuilt_map_def)
qed

lemma map_len_card: "map_len um = card (fst ` set um)"
  by (simp add: map_len_def length_remdups_card_conv)

lemma synced_len_inv:
  assumes "usage_synced l" and "distinct (UsageHistory l)"
  shows "len_inv l"
  using assms
  by (cases "UsageMap l") (simp_all add: usage_synced_def len_inv_def map_len_card distinct_card)

lemma rebuilt_map_RunCount: "rebuilt_map (l\<lparr>RunCount := c\<rparr>) = rebuilt_map l"
  by (cases "UsageMap l") (simp_all add: rebuilt_map_def)

lemma UsageMap_with_map: "UsageMap (with_map l) = Some (rebuilt_map l)"
  by (cases "UsageMap l") (simp_all add: with_map_def rebuilt_map_def)

lemma with_map_fields:
  "UsageHistory (with_map l) = UsageHistory l" "RunCount (with_map l) = RunCount l"
  "MaxDays (with_map l) = MaxDays l" "IsLifetime (with_map l) = IsLifetime l"
  "PCId (with_map l) = PCId l" "Serial (with_map l) = Serial l"
  "ProductName (with_map l) = ProductName l" "IsActivated (with_map l) = IsActivated l"
  by (simp_all add: with_map_def)

lemma used_again_same_day:
  assumes "usage_synced l" and "Date now \<in> set (UsageHistory l)"
  shows "UsageHistory (used_again l now) = UsageHistory l"
    and "RunCount (used_again l now) = RunCount l + 1"
    and "LastUsedDate (used_again l now) = RFC3339 now"
    and "UsageMap (used_again l now) = Some (rebuilt_map l)"
  using assms map_index_rebuilt [OF assms(1), of "Date now"]
  by (simp_all add: used_again_def Let_def with_map_fields UsageMap_with_map rebuilt_map_RunCount)

lemma used_again_new_day:
  assumes "usage_synced l" and "Date now \<notin> set (UsageHistory l)"
  shows "UsageHistory (used_again l now) = UsageHistory l @ [Date now]"
    and "RunCount (used_again l now) = RunCount l + 1"
    and "LastUsedDate (used_again l now) = RFC3339 now"
    and "UsageMap (used_again l now) = Some (map_assign (rebuilt_map l) (Date now) True)"
  using assms map_index_rebuilt [OF assms(1), of "Date now"]
  by (simp_all add: used_again_def Let_def with_map_fields UsageMap_with_map rebuilt_map_RunCount)

lemma used_again_fixed:
  "MaxDays (used_again l now) = MaxDays l" "IsLifetime (used_again l now) = IsLifetime l"
  "PCId (used_again l now) = PCId l" "Serial (used_again l now) = Serial l"
  "ProductName (used_again l now) = ProductName l" "IsActivated (used_again l now) = IsActivated l"
  by (simp_all add: used_again_def Let_def with_map_fields)

lemma used_again_synced:
  assumes "usage_synced l"
  shows "usage_synced (used_again l now)"
proof (cases "Date now \<in> set (UsageHistory l)")
  case True
  show ?thesis
    using used_again_same_day [OF assms True] keys_rebuilt [OF assms] map_index_rebuilt [OF assms]
    by (simp add: usage_synced_def list_all_iff)
next
  case False
  show ?thesis
    using used_again_new_day [OF assms False] keys_rebuilt [OF assms] map_index_rebuilt [OF assms]
    by (auto simp add: usage_synced_def list_all_iff keys_map_assign map_index_assign)
qed

lemma used_again_distinct:
  assumes "usage_synced l" and "distinct (UsageHistory l)"
  shows "distinct (UsageHistory (used_again l now))"
proof (cases "Date now \<in> set (UsageHistory l)")
  case True
  show ?thesis using used_again_same_day(1) [OF assms(1) True] assms(2) by simp
next
  case False
  show ?thesis using used_again_new_day(1) [OF assms(1) False] assms(2) False by simp
qed

lemma omitempty_used_again: "omitempty (used_again l now) = used_again l now"
proof -
  have "rebuilt_map l \<noteq> []" if "map_index (rebuilt_map l) (Date now)"
    using that map_index_Nil by auto
  moreover have "map_assign um k v \<noteq> []" for um :: go_map and k v
  proof
    assume "map_assign um k v = []"
    then have "fst ` set (map_assign um k v) = {}" by simp
    then show False unfolding keys_map_assign by simp
  qed
  ultimately show ?thesis
    by (auto simp add: omitempty_def used_again_def Let_def UsageMap_with_map rebuilt_map_RunCount
        split: option.splits list.splits)
qed

lemma activated_facts:
  "usage_synced (activated l now)" "distinct (UsageHistory (activated l now))"
  "omitempty (activated l now) = activated l now"
  "UsageHistory (activated l now) = [Date now]" "RunCount (activated l now) = 1"
  "LastUsedDate (activated l now) = RFC3339 now" "IsActivated (activated l now)"
  "MaxDays (activated l now) = MaxDays l" "IsLifetime (activated l now) = IsLifetime l"
  "PCId (activated l now) = PCId l" "Serial (activated l now) = Serial l"
  "ProductName (activated l now) = ProductName l"
  by (simp_all add: activated_def usage_synced_def omitempty_def map_index_def)

lemma view_stored:
  assumes "GetLicenseFilePathForProduct P w productName = Some f" and "stored P m w f l"
  shows "View P m w productName = (w, if PCId l \<noteq> PCID m then Inl WrongPC else Inr l)"
proof -
  from assms(2) obtain enc data where "files w f = Some enc" "Decrypt P (crypto m) enc = Inr data"
    "json_Unmarshal P data = Some l" by (rule stored_load)
  then show ?thesis using assms(1) by (simp add: View_def)
qed

lemma path_after_write:
  "GetLicenseFilePathForProduct P (w\<lparr>files := fs\<rparr>) productName
     = GetLicenseFilePathForProduct P w productName"
  by (simp add: GetLicenseFilePathForProduct_def Let_def)

lemma length_round256: "length (round256 st kw) = length st"
  by (induction st kw rule: round256.induct) (simp_all add: Let_def)

lemma length_foldl_round256: "length (foldl round256 st kws) = length st"
  by (induction kws arbitrary: st) (simp_all add: length_round256)

lemma length_compress: "length (compress hs block) = length hs"
  by (simp add: compress_def length_foldl_round256)

lemma length_blocks: "length (blocks n hs bs) = length hs"
  by (induction n arbitrary: hs bs) (simp_all add: length_compress)

lemma length_SHA256: "length (SHA256 m) = 8"
  by (simp add: SHA256_def Let_def length_blocks H256_def)

lemma length_concat_word_bytes: "length (concat (map word_bytes ws)) = 4 * length ws"
  by (induction ws) (simp_all add: word_bytes_def)

lemma length_sha256_Sum256: "length (sha256_Sum256 m) = 32"
  by (simp add: sha256_Sum256_def length_concat_word_bytes length_SHA256)

lemma stored_exists: "stored P m w f l \<Longrightarrow> files w f \<noteq> None"
  by (auto simp add: stored_def split: option.splits)

lemma last_drop_rand_Read:
  assumes "k < n"
  shows "last (drop k (rand_Read ent n)) = ent (n - 1)"
proof -
  have "drop k (rand_Read ent n) = map ent [k..<n]"
    by (simp add: rand_Read_def drop_map)
  moreover have "[k..<n] \<noteq> []" using assms by simp
  ultimately show ?thesis using assms by (simp add: last_map)
qed

lemma last_take_rand_Read:
  assumes "0 < k" and "k \<le> n"
  shows "last (take k (rand_Read ent n)) = ent (k - 1)"
proof -
  have "take k (rand_Read ent n) = map ent [0..<k]"
    using assms by (simp add: rand_Read_def take_map)
  moreover have "[0..<k] \<noteq> []" using assms by simp
  ultimately show ?thesis using assms by (simp add: last_map)
qed

lemma saveLicense_None:
  assumes "saveLicense P m w ent l f = (w', None)"
  shows "\<not> mkdir_fails w f \<and> \<not> write_fails w f"
  using assms by (auto simp add: saveLicense_def split: if_splits option.splits sum.splits)

lemma saveLicense_stored:
  assumes "libraries_ok P" and "saveLicense P m w ent l f = (w', None)"
  shows "stored P m w' f (omitempty l)"
    and "mkdir_fails w' = mkdir_fails w" and "write_fails w' = write_fails w"
proof -
  have io: "\<not> mkdir_fails w f" "\<not> write_fails w f"
    using saveLicense_None [OF assms(2)] by simp_all
  obtain w'' where "saveLicense P m w ent l f = (w'', None)" "stored P m w'' f (omitempty l)"
    "mkdir_fails w'' = mkdir_fails w" "write_fails w'' = write_fails w"
    using saveLicense_ok [OF assms(1) io] by blast
  then show "stored P m w' f (omitempty l)" "mkdir_fails w' = mkdir_fails w"
    "write_fails w' = write_fails w"
    using assms(2) by simp_all
qed

lemma expire_or_save_Inr:
  assumes "libraries_ok P" and "expire_or_save P m w ent l f = (w', Inr l')"
  shows "l' = l" and "stored P m w' f (omitempty l)"
    and "IsLifetime l \<or> int (length (UsageHistory l)) \<le> sint (MaxDays l)"
proof -
  have ne: "\<not> (\<not> IsLifetime l \<and> sint (MaxDays l) < int (length (UsageHistory l)))"
    using assms(2) by (auto simp add: expire_or_save_def)
  then have s: "saveLicense P m w ent l f = (w', None)" and "l' = l"
    using assms(2)
    by (auto simp add: expire_or_save_def split: prod.splits option.splits)
  then show "l' = l" "stored P m w' f (omitempty l)"
    using saveLicense_stored(1) [OF assms(1)] by simp_all
  show "IsLifetime l \<or> int (length (UsageHistory l)) \<le> sint (MaxDays l)"
    using ne by auto
qed

lemma rv_Inr_cases:
  assumes "stored P m w f l" and "readAndVerifyLicense P m w now ent f pc = (w', Inr l')"
  shows "(\<not> IsActivated l \<and> expire_or_save P m w ent (activated l now) f = (w', Inr l'))
     \<or> (IsActivated l \<and> saveLicense P m w ent (l\<lparr>RunCount := RunCount l + 1\<rparr>) f = (w', None)
          \<and> l' = l\<lparr>RunCount := RunCount l + 1\<rparr>)
     \<or> (IsActivated l \<and> expire_or_save P m w ent (used_again l now) f = (w', Inr l'))"
proof -
  have pc: "PCId l = pc" using rv_wrong_pc [OF assms(1), of pc now ent] assms(2) by auto
  have "bound_to P m pc l"
    using rv_serial_invalid [OF assms(1) pc, of now ent] assms(2) pc
    by (auto simp add: bound_to_def)
  note b = this
  show ?thesis
  proof (cases "IsActivated l")
    case False
    then show ?thesis using rv_activate [OF assms(1) b False, of now ent] assms(2) by simp
  next
    case True
    consider "LastUsedDate l = []" | "LastUsedDate l \<noteq> []" "LastUsedDate l = RFC3339 now"
      | "LastUsedDate l \<noteq> []" "RFC3339 now < LastUsedDate l" | "LastUsedDate l < RFC3339 now"
      by (metis linorder_neqE)
    then show ?thesis
    proof cases
      case 1
      then show ?thesis using rv_used_again [OF assms(1) b True, of now ent] assms(2) True by simp
    next
      case 2
      then show ?thesis
        using rv_same_instant [OF assms(1) b True 2, of ent] assms(2) True
        by (auto split: prod.splits option.splits)
    next
      case 3
      then show ?thesis using rv_rollback [OF assms(1) b True 3, of ent] assms(2) by simp
    next
      case 4
      then show ?thesis using rv_used_again [OF assms(1) b True, of now ent] assms(2) True by simp
    qed
  qed
qed

lemma omitempty_cases:
  "omitempty l = l \<or> (UsageMap l = Some [] \<and> omitempty l = l\<lparr>UsageMap := None\<rparr>)"
  by (auto simp add: omitempty_def split: option.splits list.splits)

lemma omitempty_len_inv:
  assumes "len_inv l"
  shows "len_inv (omitempty l)"
proof -
  consider "omitempty l = l" | "UsageMap (omitempty l) = None"
    using omitempty_cases [of l] by auto
  then show ?thesis
  proof cases
    case 1
    then show ?thesis using assms by simp
  next
    case 2
    then show ?thesis by (simp add: len_inv_def)
  qed
qed

lemma RunCount_update_synced:
  "usage_synced (l\<lparr>RunCount := c\<rparr>) = usage_synced l"
  by (cases "UsageMap l") (simp_all add: usage_synced_def)

lemma Create_Inr:
  assumes "Create P m w now ent req = (w', Inr l')"
  shows "l' = new_license P m now req"
    and "\<exists>f. GetLicenseFilePathForProduct P w (req_ProductName req) = Some f \<and> files w f = None
           \<and> saveLicense P m w ent l' f = (w', None)"
  using assms
  by (auto simp add: Create_def new_license_def Let_def
      split: option.splits if_splits prod.splits)

lemma new_license_facts:
  "usage_synced (new_license P m now req)" "distinct (UsageHistory (new_license P m now req))"
  "len_inv (new_license P m now req)" "\<not> IsActivated (new_license P m now req)"
  "bound_to P m (PCID m) (new_license P m now req)"
  by (simp_all add: new_license_def Let_def usage_synced_def len_inv_def map_len_def bound_to_def)

lemma sint_succ:
  fixes x :: go_int
  assumes "sint x \<noteq> 2 ^ 63 - 1"
  shows "sint (x + 1) = sint x + 1"
proof -
  have "sint x < 2 ^ 63" using sint_lt [of x] by simp
  then have "sint x + 1 < 2 ^ 63" using assms by simp
  moreover have "- (2 ^ 63) \<le> sint x + 1" using sint_ge [of x] by simp
  ultimately have "signed_take_bit 63 (sint x + 1) = sint x + 1"
    by (simp add: signed_take_bit_int_eq_self)
  then show ?thesis by (simp add: sint_word_ariths)
qed

lemma validate_later_ok:
  assumes "libraries_ok P" and "\<not> mkdir_fails w f" and "\<not> write_fails w f"
    and "stored P m w f l" and "bound_to P m pc l" and "IsActivated l"
    and "LastUsedDate l = [] \<or> LastUsedDate l < RFC3339 now"
    and "IsLifetime l \<or> int (length (UsageHistory (used_again l now))) \<le> sint (MaxDays l)"
  shows "\<exists>w'. readAndVerifyLicense P m w now ent f pc = (w', Inr (used_again l now))
           \<and> stored P m w' f (used_again l now)
           \<and> mkdir_fails w' = mkdir_fails w \<and> write_fails w' = write_fails w"
proof -
  have "IsLifetime (used_again l now)
      \<or> int (length (UsageHistory (used_again l now))) \<le> sint (MaxDays (used_again l now))"
    using assms(8) by (simp add: used_again_fixed)
  then show ?thesis
    using expire_or_save_ok [OF assms(1-3), of "used_again l now" m ent]
      rv_used_again [OF assms(4-7), of ent]
    by (simp add: omitempty_used_again)
qed

lemma validate_first_ok:
  assumes "libraries_ok P" and "\<not> mkdir_fails w f" and "\<not> write_fails w f"
    and "stored P m w f l" and "bound_to P m pc l" and "\<not> IsActivated l"
    and "IsLifetime l \<or> 1 \<le> sint (MaxDays l)"
  shows "\<exists>w'. readAndVerifyLicense P m w now ent f pc = (w', Inr (activated l now))
           \<and> stored P m w' f (activated l now)
           \<and> mkdir_fails w' = mkdir_fails w \<and> write_fails w' = write_fails w"
proof -
  have "IsLifetime (activated l now)
      \<or> int (length (UsageHistory (activated l now))) \<le> sint (MaxDays (activated l now))"
    using assms(7) by (simp add: activated_facts)
  then show ?thesis
    using expire_or_save_ok [OF assms(1-3), of "activated l now" m ent]
      rv_activate [OF assms(4-6), of now ent]
    by (simp add: activated_facts(3))
qed

lemma bound_to_used_again: "bound_to P m pc l \<Longrightarrow> bound_to P m pc (used_again l now)"
  by (simp add: bound_to_def used_again_fixed)

lemma bound_to_activated: "bound_to P m pc l \<Longrightarrow> bound_to P m pc (activated l now)"
  by (simp add: bound_to_def activated_facts)

lemma active_run:
  assumes "libraries_ok P" and "\<not> mkdir_fails w f" and "\<not> write_fails w f"
    and "stored P m w f l" and "bound_to P m pc l" and "IsActivated l" and "\<not> IsLifetime l"
    and "sint (MaxDays l) = int N" and "usage_synced l"
    and "length (UsageHistory l) + length ts = Suc N" and "ts \<noteq> []"
    and "sorted_wrt (<) (LastUsedDate l # map (RFC3339 \<circ> fst) ts)"
    and "distinct (map (Date \<circ> fst) ts)"
    and "set (map (Date \<circ> fst) ts) \<inter> set (UsageHistory l) = {}"
  shows "\<exists>ls. validations P m w f pc ts = map Inr ls @ [Inl (Expired (Suc N) (MaxDays l))]
           \<and> Suc (length ls) = length ts
           \<and> (\<forall>i < length ls.
                 UsageHistory (ls ! i) = UsageHistory l @ take (Suc i) (map (Date \<circ> fst) ts))"
  using assms
proof (induction ts arbitrary: w l)
  case Nil
  then show ?case by simp
next
  case (Cons t rest)
  obtain now ent where t: "t = (now, ent)" by (cases t)
  have later: "LastUsedDate l = [] \<or> LastUsedDate l < RFC3339 now"
    using Cons.prems(12) t by simp
  have today: "Date now \<notin> set (UsageHistory l)"
    using Cons.prems(14) t by auto
  note u = used_again_new_day [OF Cons.prems(9) today]
  show ?case
  proof (cases rest)
    case Nil
    have "length (UsageHistory l) = N" using Cons.prems(10) Nil by simp
    then have "sint (MaxDays (used_again l now)) < int (length (UsageHistory (used_again l now)))"
      using Cons.prems(8) by (simp add: u(1) used_again_fixed)
    then have "readAndVerifyLicense P m w now ent f pc
        = (w, Inl (Expired (length (UsageHistory (used_again l now))) (MaxDays (used_again l now))))"
      using rv_used_again [OF Cons.prems(4,5,6) later, of ent]
        expire_or_save_expired [of "used_again l now" P m w ent f] Cons.prems(7)
      by (simp add: used_again_fixed)
    then have "validations P m w f pc (t # rest) = [Inl (Expired (Suc N) (MaxDays l))]"
      using Nil t \<open>length (UsageHistory l) = N\<close> by (simp add: u(1) used_again_fixed)
    then show ?thesis using Nil by simp
  next
    case (Cons t2 rest2)
    let ?l1 = "used_again l now"
    have "length (UsageHistory l) < N" using Cons.prems(10) Cons by simp
    then have "IsLifetime l \<or> int (length (UsageHistory ?l1)) \<le> sint (MaxDays l)"
      using Cons.prems(8) by (simp add: u(1))
    then obtain w' where r: "readAndVerifyLicense P m w now ent f pc = (w', Inr ?l1)"
      and st: "stored P m w' f ?l1" and io: "mkdir_fails w' = mkdir_fails w"
        "write_fails w' = write_fails w"
      using validate_later_ok [OF Cons.prems(1-6) later, of ent] by blast
    have "\<exists>ls. validations P m w' f pc rest = map Inr ls @ [Inl (Expired (Suc N) (MaxDays ?l1))]
           \<and> Suc (length ls) = length rest
           \<and> (\<forall>i < length ls.
                 UsageHistory (ls ! i) = UsageHistory ?l1 @ take (Suc i) (map (Date \<circ> fst) rest))"
    proof (rule Cons.IH)
      show "libraries_ok P" by (rule Cons.prems(1))
      show "\<not> mkdir_fails w' f" "\<not> write_fails w' f" using io Cons.prems(2,3) by simp_all
      show "stored P m w' f ?l1" by (rule st)
      show "bound_to P m pc ?l1" using Cons.prems(5) by (rule bound_to_used_again)
      show "IsActivated ?l1" "\<not> IsLifetime ?l1" "sint (MaxDays ?l1) = int N"
        using Cons.prems(6,7,8) by (simp_all add: used_again_fixed)
      show "usage_synced ?l1" using Cons.prems(9) by (rule used_again_synced)
      show "length (UsageHistory ?l1) + length rest = Suc N"
        using Cons.prems(10) by (simp add: u(1))
      show "rest \<noteq> []" using Cons by simp
      show "sorted_wrt (<) (LastUsedDate ?l1 # map (RFC3339 \<circ> fst) rest)"
        using Cons.prems(12) t by (simp add: u(3) comp_def)
      show "distinct (map (Date \<circ> fst) rest)" using Cons.prems(13) by (simp add: comp_def)
      show "set (map (Date \<circ> fst) rest) \<inter> set (UsageHistory ?l1) = {}"
        using Cons.prems(13,14) t by (auto simp add: u(1))
    qed
    then obtain ls where ls: "validations P m w' f pc rest
          = map Inr ls @ [Inl (Expired (Suc N) (MaxDays ?l1))]"
      "Suc (length ls) = length rest"
      "\<forall>i < length ls.
         UsageHistory (ls ! i) = UsageHistory ?l1 @ take (Suc i) (map (Date \<circ> fst) rest)"
      by blast
    have 1: "validations P m w f pc (t # rest)
        = map Inr (?l1 # ls) @ [Inl (Expired (Suc N) (MaxDays l))]"
      using r ls(1) t by (simp add: used_again_fixed)
    have 2: "Suc (length (?l1 # ls)) = length (t # rest)" using ls(2) by simp
    have 3: "UsageHistory ((?l1 # ls) ! i)
               = UsageHistory l @ take (Suc i) (map (Date \<circ> fst) (t # rest))"
      if "i < length (?l1 # ls)" for i
    proof (cases i)
      case 0
      then show ?thesis using t by (simp add: u(1))
    next
      case (Suc j)
      then have "j < length ls" using that by simp
      then show ?thesis using ls(3) Suc t by (simp add: u(1))
    qed
    show ?thesis using 1 2 3 by blast
  qed
qed

lemma Create_ok:
  assumes "libraries_ok P" and "GetLicenseFilePathForProduct P w (req_ProductName req) = Some f"
    and "files w f = None" and "\<not> mkdir_fails w f" and "\<not> write_fails w f"
  shows "\<exists>w'. Create P m w now ent req = (w', Inr (new_license P m now req))"
proof -
  obtain w' where "saveLicense P m w ent (new_license P m now req) f = (w', None)"
    using saveLicense_ok [OF assms(1,4,5)] by blast
  then show ?thesis
    using assms(2,3) by (simp add: Create_def new_license_def Let_def)
qed

section \<open>The instance meets the contracts\<close>

lemma dec_enc_tokens_aux:
  "foldr (\<lambda>b acc. if b = 0 then 0 # acc else (case acc of [] \<Rightarrow> [] | n # r \<Rightarrow> Suc n # r))
     (replicate n (1 :: byte)) (k # acc) = (n + k) # acc"
  by (induction n) simp_all

lemma dec_enc_tokens: "dec_tokens (enc_tokens ns) = ns"
  unfolding dec_tokens_def enc_tokens_def
  by (induction ns) (simp_all add: dec_enc_tokens_aux del: foldr_replicate)

lemma get_put_str: "get_str (put_str s @ r) = (s, r)"
  by (simp add: get_str_def put_str_def comp_def)

lemma get_strs_concat: "get_strs (length ss) (concat (map put_str ss) @ r) = (ss, r)"
  by (induction ss) (simp_all add: get_put_str)

lemma get_put_map: "get_map (put_map um) = um"
proof (cases um)
  case None
  then show ?thesis by (simp add: get_map_def put_map_def)
next
  case (Some kvs)
  have "zip (map fst kvs) (map (\<lambda>v. v \<noteq> 0) (map (put_bool \<circ> snd) kvs)) = kvs"
    by (induction kvs) (auto simp add: put_bool_def)
  then show ?thesis
    using Some get_strs_concat [of "map fst kvs" "map (put_bool \<circ> snd) kvs"]
    by (simp add: get_map_def put_map_def put_strs_def)
qed

lemma get_put_license: "get_license (put_license l) = l"
  by (cases l)
     (simp add: get_license_def put_license_def get_put_str get_strs_concat get_put_map
        put_strs_def put_bool_def)

lemma ref_json_roundtrip: "json_roundtrip ref_prims"
  by (simp add: json_roundtrip_def ref_prims_def ref_marshal_def ref_unmarshal_def
      dec_enc_tokens get_put_license)

lemma ref_pbkdf2_length: "pbkdf2_length ref_prims"
  by (auto simp add: pbkdf2_length_def ref_prims_def ref_pbkdf2_def min_def)

lemma ref_aead_correct: "aead_correct ref_prims"
  by (simp add: aead_correct_def ref_prims_def ref_seal_def ref_open_def)

lemma ref_aead_key_binding: "aead_key_binding ref_prims"
  by (simp add: aead_key_binding_def ref_prims_def ref_seal_def ref_open_def)

lemma ref_libraries_ok: "libraries_ok ref_prims"
  by (simp add: libraries_ok_def ref_json_roundtrip ref_pbkdf2_length ref_aead_correct)

lemma ref_world_io:
  "\<not> mkdir_fails ref_world f" "\<not> write_fails ref_world f"
  by (simp_all add: ref_world_def)

lemma world_with_facts:
  "stored ref_prims ref_manager (world_with l) ref_path (omitempty l)"
  "mkdir_fails (world_with l) = (\<lambda>path. False)" "write_fails (world_with l) = (\<lambda>path. False)"
  "env_LICENSE_DIR (world_with l) = ''/licenses''"
proof -
  obtain w' where "saveLicense ref_prims ref_manager ref_world ref_entropy l ref_path = (w', None)"
    "stored ref_prims ref_manager w' ref_path (omitempty l)"
    "mkdir_fails w' = mkdir_fails ref_world" "write_fails w' = write_fails ref_world"
    "env_LICENSE_DIR w' = env_LICENSE_DIR ref_world"
    using saveLicense_ok [OF ref_libraries_ok ref_world_io(1) [of ref_path]
        ref_world_io(2) [of ref_path]]
    by blast
  then show "stored ref_prims ref_manager (world_with l) ref_path (omitempty l)"
    "mkdir_fails (world_with l) = (\<lambda>path. False)" "write_fails (world_with l) = (\<lambda>path. False)"
    "env_LICENSE_DIR (world_with l) = ''/licenses''"
    by (simp_all add: world_with_def ref_world_def)
qed

lemma sanitize_Acme: "sanitizeFilename ''Acme'' = ''Acme''"
  by (simp add: sanitizeFilename_def ReplaceAll_def)

lemma path_Acme: "GetLicenseFilePathForProduct ref_prims (world_with l) ''Acme'' = Some ref_path"
  by (simp add: GetLicenseFilePathForProduct_def world_with_facts sanitize_Acme ref_prims_def
      ref_path_def Let_def)

lemma omitempty_ref_license: "omitempty (ref_license n) = ref_license n"
  by (simp add: omitempty_def ref_license_def)

lemma ref_license_bound: "bound_to ref_prims ref_manager ''pc-1'' (ref_license n)"
  by (simp add: bound_to_def ref_license_def)

lemma omitempty_used_license: "omitempty used_license = used_license"
  by (simp add: omitempty_def used_license_def ref_license_def)

lemma used_license_bound: "bound_to ref_prims ref_manager ''pc-1'' used_license"
  by (simp add: bound_to_def used_license_def ref_license_def)

lemma omitempty_forged_license: "omitempty forged_license = forged_license"
  by (simp add: omitempty_def forged_license_def used_license_def ref_license_def)

lemma path_Acme_ref_world: "GetLicenseFilePathForProduct ref_prims ref_world ''Acme'' = Some ref_path"
  by (simp add: GetLicenseFilePathForProduct_def ref_world_def sanitize_Acme ref_prims_def
      ref_path_def Let_def)

lemma ref_open_random_block:
  "gcm_Open ref_prims key (take 12 (rand_Read ref_entropy 1024))
     (drop 12 (rand_Read ref_entropy 1024)) = None"
proof -
  define nonce where "nonce = take 12 (rand_Read ref_entropy 1024)"
  define c where "c = drop 12 (rand_Read ref_entropy 1024)"
  have lc: "length c = 1012" and ln: "length nonce = 12"
    by (simp_all add: c_def nonce_def length_rand_Read)
  have last_c: "last c = ref_entropy 1023"
    unfolding c_def using last_drop_rand_Read [of 12 1024 ref_entropy] by simp
  have last_n: "last nonce = ref_entropy 11"
    unfolding nonce_def using last_take_rand_Read [of 12 1024 ref_entropy] by simp
  have nn: "nonce \<noteq> []" using ln by auto
  have "drop (length c - (length key + length nonce)) c \<noteq> key @ nonce"
    if le: "length key + length nonce \<le> length c"
  proof
    assume eq: "drop (length c - (length key + length nonce)) c = key @ nonce"
    have "length c - (length key + length nonce) < length c" using le ln lc by simp
    then have "last (drop (length c - (length key + length nonce)) c) = last c"
      by (rule last_drop)
    moreover have "last (key @ nonce) = last nonce" using nn by simp
    ultimately have "ref_entropy 1023 = ref_entropy 11" using eq last_c last_n by simp
    then show False by (simp add: ref_entropy_def)
  qed
  then have "ref_open key nonce c = None" by (auto simp add: ref_open_def Let_def)
  then show ?thesis by (simp add: ref_prims_def nonce_def c_def)
qed

lemma ref_key_digest:
  "sha256_Sum256 (bytes_of_string ref_key) =
     [0x3e, 0xb1, 0xbd, 0x43, 0x99, 0x47, 0xeb, 0x76, 0x29, 0x98, 0xe5, 0x66, 0xcc,
      0xc2, 0xe0, 0x99, 0xc7, 0x91, 0x11, 0x8b, 0x2f, 0x40, 0x57, 0x9c, 0xc4, 0xf7,
      0xda, 0x2b, 0x50, 0x61, 0xb7, 0xf9]"
  unfolding ref_key_def by (rule key32_digest)

lemma stored_ref_license: "stored ref_prims ref_manager (world_with (ref_license n)) ref_path (ref_license n)"
  using world_with_facts(1) [of "ref_license n"] by (simp add: omitempty_ref_license)

lemma stored_used_license: "stored ref_prims ref_manager (world_with used_license) ref_path used_license"
  using world_with_facts(1) [of used_license] by (simp add: omitempty_used_license)

lemma world_with_io: "\<not> mkdir_fails (world_with l) f" "\<not> write_fails (world_with l) f"
  by (simp_all add: world_with_facts)

lemma used_license_facts:
  "IsActivated used_license" "usage_synced used_license" "distinct (UsageHistory used_license)"
  "\<not> IsLifetime used_license" "UsageHistory used_license = [''2025-02-28'', ''2025-03-01'']"
  "LastUsedDate used_license = ''2025-03-01T09:00:00Z''" "RunCount used_license = 2"
  "sint (MaxDays used_license) = 30"
  by (simp_all add: used_license_def ref_license_def usage_synced_def)

section \<open>The claims\<close>

text \<open>
  Claim C1. Exactly N days. Under the contracts of the libraries and with a file system
  that accepts the writes, take a license file that holds a record not yet activated,
  not lifetime, with \<open>MaxDays = N\<close>, that passes the machine and serial checks, and
  \<open>N + 1\<close> successive validations whose timestamps increase strictly and whose calendar
  days are pairwise distinct. The first \<open>N\<close> validations succeed, the \<open>i\<close>-th returning
  the first \<open>i\<close> days as usage history, and the last one fails with the expiration error
  (\<open>N + 1\<close> days used of \<open>N\<close> allowed).
\<close>

theorem exactly_N_days:
  assumes "libraries_ok P" and "\<not> mkdir_fails w f" and "\<not> write_fails w f"
    and "stored P m w f l" and "bound_to P m pc l" and "\<not> IsActivated l" and "\<not> IsLifetime l"
    and "sint (MaxDays l) = int N"
    and "length ts = Suc N" and "sorted_wrt (<) (map (RFC3339 \<circ> fst) ts)"
    and "distinct (map (Date \<circ> fst) ts)"
  shows "\<exists>ls. validations P m w f pc ts = map Inr ls @ [Inl (Expired (Suc N) (MaxDays l))]
           \<and> length ls = N
           \<and> (\<forall>i < N. UsageHistory (ls ! i) = take (Suc i) (map (Date \<circ> fst) ts))"
proof -
  obtain t rest where ts: "ts = t # rest" using assms(9) by (cases ts) auto
  obtain now ent where t: "t = (now, ent)" by (cases t)
  let ?l1 = "activated l now"
  show ?thesis
  proof (cases N)
    case 0
    then have rest: "rest = []" using assms(9) ts by simp
    have "sint (MaxDays ?l1) < int (length (UsageHistory ?l1))"
      using assms(8) 0 by (simp add: activated_facts)
    then have "readAndVerifyLicense P m w now ent f pc = (w, Inl (Expired (Suc N) (MaxDays l)))"
      using rv_activate [OF assms(4-6), of now ent]
        expire_or_save_expired [of ?l1 P m w ent f] assms(7) 0
      by (simp add: activated_facts)
    then show ?thesis using ts t rest 0 by simp
  next
    case (Suc k)
    then have "IsLifetime l \<or> 1 \<le> sint (MaxDays l)" using assms(8) by simp
    then obtain w' where r: "readAndVerifyLicense P m w now ent f pc = (w', Inr ?l1)"
      and st: "stored P m w' f ?l1" and io: "mkdir_fails w' = mkdir_fails w"
        "write_fails w' = write_fails w"
      using validate_first_ok [OF assms(1-6), of now ent] by blast
    have "\<exists>ls. validations P m w' f pc rest = map Inr ls @ [Inl (Expired (Suc N) (MaxDays ?l1))]
           \<and> Suc (length ls) = length rest
           \<and> (\<forall>i < length ls.
                 UsageHistory (ls ! i) = UsageHistory ?l1 @ take (Suc i) (map (Date \<circ> fst) rest))"
    proof (rule active_run)
      show "libraries_ok P" by (rule assms(1))
      show "\<not> mkdir_fails w' f" "\<not> write_fails w' f" using io assms(2,3) by simp_all
      show "stored P m w' f ?l1" by (rule st)
      show "bound_to P m pc ?l1" using assms(5) by (rule bound_to_activated)
      show "IsActivated ?l1" "\<not> IsLifetime ?l1" "sint (MaxDays ?l1) = int N"
        using assms(7,8) by (simp_all add: activated_facts)
      show "usage_synced ?l1" by (rule activated_facts(1))
      show "length (UsageHistory ?l1) + length rest = Suc N"
        using assms(9) ts by (simp add: activated_facts)
      show "rest \<noteq> []" using assms(9) ts Suc by auto
      show "sorted_wrt (<) (LastUsedDate ?l1 # map (RFC3339 \<circ> fst) rest)"
        using assms(10) ts t by (simp add: activated_facts comp_def)
      show "distinct (map (Date \<circ> fst) rest)" using assms(11) ts by (simp add: comp_def)
      show "set (map (Date \<circ> fst) rest) \<inter> set (UsageHistory ?l1) = {}"
        using assms(11) ts t by (auto simp add: activated_facts)
    qed
    then obtain ls where ls: "validations P m w' f pc rest
          = map Inr ls @ [Inl (Expired (Suc N) (MaxDays ?l1))]"
      "Suc (length ls) = length rest"
      "\<forall>i < length ls.
         UsageHistory (ls ! i) = UsageHistory ?l1 @ take (Suc i) (map (Date \<circ> fst) rest)"
      by blast
    have 1: "validations P m w f pc ts = map Inr (?l1 # ls) @ [Inl (Expired (Suc N) (MaxDays l))]"
      using r ls(1) ts t by (simp add: activated_facts)
    have 2: "length (?l1 # ls) = N" using ls(2) assms(9) ts by simp
    have 3: "UsageHistory ((?l1 # ls) ! i) = take (Suc i) (map (Date \<circ> fst) ts)"
      if "i < N" for i
    proof (cases i)
      case 0
      then show ?thesis using ts t by (simp add: activated_facts)
    next
      case (Suc j)
      then have "j < length ls" using that 2 by simp
      then show ?thesis using ls(3) Suc ts t by (simp add: activated_facts)
    qed
    show ?thesis using 1 2 3 by blast
  qed
qed

theorem exactly_N_days_witness:
  "\<exists>ls. validations ref_prims ref_manager (world_with (ref_license 2)) ref_path ''pc-1''
           [(mar01_morning, ref_entropy), (mar02_morning, ref_entropy), (mar03_morning, ref_entropy)]
         = map Inr ls @ [Inl (Expired 3 2)]
       \<and> length ls = 2
       \<and> UsageHistory (ls ! 0) = [''2025-03-01'']
       \<and> UsageHistory (ls ! 1) = [''2025-03-01'', ''2025-03-02'']"
proof -
  let ?ts = "[(mar01_morning, ref_entropy), (mar02_morning, ref_entropy),
              (mar03_morning, ref_entropy)]"
  have fresh: "\<not> IsActivated (ref_license 2)" "\<not> IsLifetime (ref_license 2)"
    "sint (MaxDays (ref_license 2)) = int 2"
    by (simp_all add: ref_license_def)
  have ts: "length ?ts = Suc 2" "sorted_wrt (<) (map (RFC3339 \<circ> fst) ?ts)"
    "distinct (map (Date \<circ> fst) ?ts)"
    by (simp_all add: mar01_morning_def mar02_morning_def mar03_morning_def)
  obtain ls where ls: "validations ref_prims ref_manager (world_with (ref_license 2)) ref_path
        ''pc-1'' ?ts = map Inr ls @ [Inl (Expired (Suc 2) (MaxDays (ref_license 2)))]"
    "length ls = 2" "\<forall>i < 2. UsageHistory (ls ! i) = take (Suc i) (map (Date \<circ> fst) ?ts)"
    using exactly_N_days [OF ref_libraries_ok world_with_io stored_ref_license ref_license_bound
        fresh ts]
    by blast
  have "UsageHistory (ls ! 0) = take (Suc 0) (map (Date \<circ> fst) ?ts)"
    "UsageHistory (ls ! 1) = take (Suc 1) (map (Date \<circ> fst) ?ts)"
    using ls(3) by simp_all
  then have "UsageHistory (ls ! 0) = [''2025-03-01'']"
    "UsageHistory (ls ! 1) = [''2025-03-01'', ''2025-03-02'']"
    by (simp_all add: mar01_morning_def mar02_morning_def mar03_morning_def)
  then show ?thesis using ls(1,2) by (auto simp add: ref_license_def)
qed

text \<open>
  Claim C2. For an activated record that passes the machine and serial checks and has a
  non-empty \<open>LastUsedDate\<close>, a validation whose timestamp is strictly smaller (in the
  bytewise order of the strings) fails with the rollback error and returns the world it was
  given: the file still holds the record, with \<open>RunCount\<close> and \<open>UsageHistory\<close> as before.
\<close>

theorem rollback_rejected:
  assumes "stored P m w f l" and "bound_to P m pc l" and "IsActivated l"
    and "LastUsedDate l \<noteq> []" and "RFC3339 now < LastUsedDate l"
  shows "readAndVerifyLicense P m w now ent f pc = (w, Inl RolledBack)
     \<and> stored P m (fst (readAndVerifyLicense P m w now ent f pc)) f l"
  using rv_rollback [OF assms] assms(1) by simp

theorem rollback_rejected_witness:
  "readAndVerifyLicense ref_prims ref_manager (world_with used_license) feb28_evening ref_entropy
     ref_path ''pc-1'' = (world_with used_license, Inl RolledBack)
   \<and> stored ref_prims ref_manager
        (fst (readAndVerifyLicense ref_prims ref_manager (world_with used_license) feb28_evening
           ref_entropy ref_path ''pc-1'')) ref_path used_license"
proof -
  have "stored ref_prims ref_manager (world_with used_license) ref_path used_license"
    using world_with_facts(1) [of used_license] by (simp add: omitempty_used_license)
  moreover have "RFC3339 feb28_evening < LastUsedDate used_license"
    by (simp add: feb28_evening_def used_license_def)
  ultimately show ?thesis
    using rollback_rejected [of ref_prims ref_manager "world_with used_license" ref_path
        used_license "''pc-1''" feb28_evening ref_entropy] used_license_bound
    by (simp add: used_license_def)
qed

text \<open>
  Claim C3, as the specification states it, says that the view operation includes the
  serial check. \<open>View\<close> compares the stored machine id only: in the scenario, the file of
  \<open>Acme\<close> holds a record bound to the current machine whose serial is not the recomputed
  one, and \<open>View\<close> returns it.
\<close>

theorem view_accepts_wrong_serial:
  "View ref_prims ref_manager (world_with forged_license) ''Acme''
     = (world_with forged_license, Inr forged_license)
   \<and> PCId forged_license = PCID ref_manager
   \<and> Serial forged_license
       \<noteq> GenerateSerial ref_prims (crypto ref_manager) (PCId forged_license)
           (ProductName forged_license) (MaxDays forged_license)"
proof -
  have "stored ref_prims ref_manager (world_with forged_license) ref_path forged_license"
    using world_with_facts(1) [of forged_license] by (simp add: omitempty_forged_license)
  then have "View ref_prims ref_manager (world_with forged_license) ''Acme''
     = (world_with forged_license,
        if PCId forged_license \<noteq> PCID ref_manager then Inl WrongPC else Inr forged_license)"
    by (rule view_stored [OF path_Acme])
  moreover have "PCId forged_license = PCID ref_manager"
    by (simp add: forged_license_def used_license_def ref_license_def ref_manager_def)
  moreover have "length (Serial forged_license) \<noteq> 23"
    by (simp add: forged_license_def)
  then have "Serial forged_license
       \<noteq> GenerateSerial ref_prims (crypto ref_manager) (PCId forged_license)
           (ProductName forged_license) (MaxDays forged_license)"
    using length_GenerateSerial by metis
  ultimately show ?thesis by simp
qed

text \<open>
  Claim C3, amended. For a license file that decrypts and parses, \<open>View\<close> checks the
  stored machine id against the current one and nothing else (the serial is not
  recomputed): it fails with the wrong-machine error when they differ and otherwise
  returns the record as stored, with \<open>RunCount\<close>, \<open>UsageHistory\<close> and \<open>IsActivated\<close> as
  they are in the file, and it returns the world it was given.
\<close>

theorem view_checks_machine_only:
  assumes "GetLicenseFilePathForProduct P w productName = Some f" and "stored P m w f l"
  shows "View P m w productName = (w, if PCId l \<noteq> PCID m then Inl WrongPC else Inr l)"
  using assms by (rule view_stored)

theorem view_checks_machine_only_witness:
  "View ref_prims ref_manager (world_with used_license) ''Acme''
     = (world_with used_license, Inr used_license)"
proof -
  have "stored ref_prims ref_manager (world_with used_license) ref_path used_license"
    using world_with_facts(1) [of used_license] by (simp add: omitempty_used_license)
  then show ?thesis
    using view_checks_machine_only [OF path_Acme [of used_license], of ref_manager used_license]
    by (simp add: used_license_def ref_license_def ref_manager_def)
qed

text \<open>
  Claim C4, as the specification states it, says that a master secret of exactly 32 bytes
  is used as it is. \<open>NewCryptoManagerWithKey\<close> hashes every secret: for the 32-byte
  secret \<open>ref_key\<close> the master key is its SHA-256 digest, not the secret.
\<close>

theorem normalization_not_conditional:
  "length (bytes_of_string ref_key) = 32
   \<and> NewCryptoManagerWithKey ref_key
       = Inr \<lparr>masterKey =
           [0x3e, 0xb1, 0xbd, 0x43, 0x99, 0x47, 0xeb, 0x76, 0x29, 0x98, 0xe5, 0x66, 0xcc,
            0xc2, 0xe0, 0x99, 0xc7, 0x91, 0x11, 0x8b, 0x2f, 0x40, 0x57, 0x9c, 0xc4, 0xf7,
            0xda, 0x2b, 0x50, 0x61, 0xb7, 0xf9]\<rparr>
   \<and> NewCryptoManagerWithKey ref_key
       \<noteq> Inr \<lparr>masterKey = spec_normalize (bytes_of_string ref_key)\<rparr>"
proof -
  have len: "length (bytes_of_string ref_key) = 32"
    by (simp add: ref_key_def bytes_of_string_def)
  have key: "ref_key \<noteq> []" by (simp add: ref_key_def)
  have 1: "NewCryptoManagerWithKey ref_key
       = Inr \<lparr>masterKey = sha256_Sum256 (bytes_of_string ref_key)\<rparr>"
    using key by (simp add: NewCryptoManagerWithKey_def)
  have 2: "spec_normalize (bytes_of_string ref_key) = bytes_of_string ref_key"
    using len by (simp add: spec_normalize_def)
  have 3: "sha256_Sum256 (bytes_of_string ref_key) \<noteq> bytes_of_string ref_key"
    unfolding ref_key_digest by (simp add: ref_key_def bytes_of_string_def byte_of_char_def)
  show ?thesis using len 1 2 3 by (simp add: ref_key_digest)
qed

text \<open>
  Claim C4, amended. The normalization does not depend on the length: for every non-empty
  master secret, given directly or through the environment, the master key is the
  SHA-256 digest of the secret (32 bytes), and both derived keys are PBKDF2 of that
  digest with the salt derived from that digest.
\<close>

theorem master_secret_always_hashed:
  assumes "key \<noteq> []"
  shows "\<exists>cm. NewCryptoManagerWithKey key = Inr cm \<and> NewCryptoManager key = Inr cm
     \<and> masterKey cm = sha256_Sum256 (bytes_of_string key) \<and> length (masterKey cm) = 32
     \<and> DeriveSerialKey P cm
         = pbkdf2_Key P (sha256_Sum256 (bytes_of_string key))
             (sha256_Sum256 ((bytes_of_string ''LICENSE_MANAGER_2025_''
                                @ bytes_of_string ''SERIAL_KEY_DERIVATION'')
                               @ sha256_Sum256 (bytes_of_string key))) 10000 32
     \<and> DeriveEncryptionKey P cm
         = pbkdf2_Key P (sha256_Sum256 (bytes_of_string key))
             (sha256_Sum256 ((bytes_of_string ''LICENSE_MANAGER_2025_''
                                @ bytes_of_string ''ENCRYPTION_KEY_DERIVATION'')
                               @ sha256_Sum256 (bytes_of_string key))) 10000 32"
  using assms
  by (simp add: NewCryptoManagerWithKey_def NewCryptoManager_def getMasterKey_def
      length_sha256_Sum256 DeriveSerialKey_def DeriveEncryptionKey_def deriveSalt_def)

theorem master_secret_always_hashed_witness:
  "\<exists>cm. NewCryptoManagerWithKey ref_key = Inr cm \<and> NewCryptoManager ref_key = Inr cm
     \<and> masterKey cm = sha256_Sum256 (bytes_of_string ref_key) \<and> length (masterKey cm) = 32
     \<and> DeriveSerialKey ref_prims cm
         = pbkdf2_Key ref_prims (sha256_Sum256 (bytes_of_string ref_key))
             (sha256_Sum256 ((bytes_of_string ''LICENSE_MANAGER_2025_''
                                @ bytes_of_string ''SERIAL_KEY_DERIVATION'')
                               @ sha256_Sum256 (bytes_of_string ref_key))) 10000 32
     \<and> DeriveEncryptionKey ref_prims cm
         = pbkdf2_Key ref_prims (sha256_Sum256 (bytes_of_string ref_key))
             (sha256_Sum256 ((bytes_of_string ''LICENSE_MANAGER_2025_''
                                @ bytes_of_string ''ENCRYPTION_KEY_DERIVATION'')
                               @ sha256_Sum256 (bytes_of_string ref_key))) 10000 32"
proof -
  have "ref_key \<noteq> []" by (simp add: ref_key_def)
  then show ?thesis by (rule master_secret_always_hashed)
qed

text \<open>
  Claim C5. Under the contracts of the libraries and with a file system that accepts the
  writes, take an activated record that passes the machine and serial checks, whose usage
  map (when present) agrees with its usage history, and a validation at a timestamp
  strictly after \<open>LastUsedDate\<close>. If the day of the validation is already in the usage
  history and the term is not exceeded (as after a successful validation earlier that
  day), the call succeeds, adds exactly 1 to \<open>RunCount\<close> (in Go's 64-bit arithmetic, and
  as integers unless \<open>RunCount\<close> is the largest \<open>int\<close>), leaves \<open>UsageHistory\<close> as it is and
  sets \<open>LastUsedDate\<close> to the new timestamp. If the day is new and a day of the term is
  left, the call succeeds and appends the day at the end of \<open>UsageHistory\<close>. The record
  returned is the record the file then holds.
\<close>

theorem same_day_revalidation:
  assumes "libraries_ok P" and "\<not> mkdir_fails w f" and "\<not> write_fails w f"
    and "stored P m w f l" and "bound_to P m pc l" and "IsActivated l"
    and "LastUsedDate l < RFC3339 now" and "usage_synced l"
  shows "(Date now \<in> set (UsageHistory l)
          \<and> (IsLifetime l \<or> int (length (UsageHistory l)) \<le> sint (MaxDays l)) \<longrightarrow>
          (\<exists>w' l'. readAndVerifyLicense P m w now ent f pc = (w', Inr l') \<and> stored P m w' f l'
             \<and> RunCount l' = RunCount l + 1
             \<and> (sint (RunCount l) \<noteq> 2 ^ 63 - 1 \<longrightarrow> sint (RunCount l') = sint (RunCount l) + 1)
             \<and> UsageHistory l' = UsageHistory l \<and> LastUsedDate l' = RFC3339 now))
     \<and> (Date now \<notin> set (UsageHistory l)
          \<and> (IsLifetime l \<or> int (length (UsageHistory l)) < sint (MaxDays l)) \<longrightarrow>
          (\<exists>w' l'. readAndVerifyLicense P m w now ent f pc = (w', Inr l') \<and> stored P m w' f l'
             \<and> RunCount l' = RunCount l + 1
             \<and> UsageHistory l' = UsageHistory l @ [Date now] \<and> LastUsedDate l' = RFC3339 now))"
proof -
  have later: "LastUsedDate l = [] \<or> LastUsedDate l < RFC3339 now" using assms(7) by simp
  have same: "\<exists>w' l'. readAndVerifyLicense P m w now ent f pc = (w', Inr l') \<and> stored P m w' f l'
             \<and> RunCount l' = RunCount l + 1
             \<and> (sint (RunCount l) \<noteq> 2 ^ 63 - 1 \<longrightarrow> sint (RunCount l') = sint (RunCount l) + 1)
             \<and> UsageHistory l' = UsageHistory l \<and> LastUsedDate l' = RFC3339 now"
    if today: "Date now \<in> set (UsageHistory l)"
      and within: "IsLifetime l \<or> int (length (UsageHistory l)) \<le> sint (MaxDays l)"
  proof -
    note u = used_again_same_day [OF assms(8) today]
    have "IsLifetime l \<or> int (length (UsageHistory (used_again l now))) \<le> sint (MaxDays l)"
      using within by (simp add: u(1))
    then obtain w' where "readAndVerifyLicense P m w now ent f pc = (w', Inr (used_again l now))"
      "stored P m w' f (used_again l now)"
      using validate_later_ok [OF assms(1-6) later, of ent] by blast
    then show ?thesis using u sint_succ [of "RunCount l"] by auto
  qed
  have new: "\<exists>w' l'. readAndVerifyLicense P m w now ent f pc = (w', Inr l') \<and> stored P m w' f l'
             \<and> RunCount l' = RunCount l + 1
             \<and> UsageHistory l' = UsageHistory l @ [Date now] \<and> LastUsedDate l' = RFC3339 now"
    if today: "Date now \<notin> set (UsageHistory l)"
      and within: "IsLifetime l \<or> int (length (UsageHistory l)) < sint (MaxDays l)"
  proof -
    note u = used_again_new_day [OF assms(8) today]
    have "IsLifetime l \<or> int (length (UsageHistory (used_again l now))) \<le> sint (MaxDays l)"
      using within by (auto simp add: u(1))
    then obtain w' where "readAndVerifyLicense P m w now ent f pc = (w', Inr (used_again l now))"
      "stored P m w' f (used_again l now)"
      using validate_later_ok [OF assms(1-6) later, of ent] by blast
    then show ?thesis using u by auto
  qed
  show ?thesis using same new by blast
qed

theorem same_day_revalidation_witness:
  "(\<exists>w' l'. readAndVerifyLicense ref_prims ref_manager (world_with used_license) mar01_evening
               ref_entropy ref_path ''pc-1'' = (w', Inr l')
            \<and> RunCount l' = 3 \<and> UsageHistory l' = [''2025-02-28'', ''2025-03-01'']
            \<and> LastUsedDate l' = ''2025-03-01T18:30:00Z'')
   \<and> (\<exists>w' l'. readAndVerifyLicense ref_prims ref_manager (world_with used_license) mar02_morning
               ref_entropy ref_path ''pc-1'' = (w', Inr l')
            \<and> RunCount l' = 3
            \<and> UsageHistory l' = [''2025-02-28'', ''2025-03-01'', ''2025-03-02'']
            \<and> LastUsedDate l' = ''2025-03-02T09:00:00Z'')"
proof -
  have 1: "LastUsedDate used_license < RFC3339 mar01_evening"
    and 2: "LastUsedDate used_license < RFC3339 mar02_morning"
    by (simp_all add: used_license_facts mar01_evening_def mar02_morning_def)
  show ?thesis
    using same_day_revalidation [OF ref_libraries_ok world_with_io stored_used_license
        used_license_bound used_license_facts(1) 1 used_license_facts(2), of ref_entropy]
      same_day_revalidation [OF ref_libraries_ok world_with_io stored_used_license
        used_license_bound used_license_facts(1) 2 used_license_facts(2), of ref_entropy]
    by (simp add: used_license_facts mar01_evening_def mar02_morning_def) blast
qed

text \<open>
  Claim C6. Under the contracts of PBKDF2 and AES-GCM (a 32-byte derived key; opening with
  the sealing key and nonce returns the plaintext; opening with another key fails), for
  every plaintext and every nonce drawn at sealing, \<open>Decrypt\<close> with the sealing manager's
  key returns exactly the plaintext, and \<open>Decrypt\<close> with a manager whose derived key
  differs fails with the authentication error.
\<close>

theorem envelope_round_trip:
  assumes "pbkdf2_length P" and "aead_correct P" and "aead_key_binding P"
  shows "\<exists>e. Encrypt P cm ent x = Inr e \<and> Decrypt P cm e = Inr x \<and>
           (DeriveEncryptionKey P cm' \<noteq> DeriveEncryptionKey P cm \<longrightarrow>
              Decrypt P cm' e = Inl AuthenticationFailed)"
proof -
  let ?k = "DeriveEncryptionKey P cm" and ?k' = "DeriveEncryptionKey P cm'"
  let ?n = "rand_Read ent 12"
  let ?e = "?n @ gcm_Seal P ?k ?n x"
  have k: "length ?k = 32" and k': "length ?k' = 32"
    using assms(1) by (simp_all add: key_length)
  have n: "length ?n = 12" by (simp add: length_rand_Read)
  have 1: "Encrypt P cm ent x = Inr ?e" by (rule Encrypt_eq [OF k])
  have "gcm_Open P ?k ?n (gcm_Seal P ?k ?n x) = Some x"
    using assms(2) k n by (simp add: aead_correct_def)
  then have 2: "Decrypt P cm ?e = Inr x"
    by (simp add: Decrypt_envelope [OF k n])
  have 3: "Decrypt P cm' ?e = Inl AuthenticationFailed" if "?k' \<noteq> ?k"
  proof -
    have "gcm_Open P ?k' ?n (gcm_Seal P ?k ?n x) = None"
      using assms(3) k k' n that unfolding aead_key_binding_def by metis
    then show ?thesis by (simp add: Decrypt_envelope [OF k' n])
  qed
  show ?thesis using 1 2 3 by blast
qed

theorem envelope_round_trip_witness:
  "\<exists>e. Encrypt ref_prims \<lparr>masterKey = replicate 32 1\<rparr> ref_entropy [10, 20, 30] = Inr e
     \<and> Decrypt ref_prims \<lparr>masterKey = replicate 32 1\<rparr> e = Inr [10, 20, 30]
     \<and> Decrypt ref_prims \<lparr>masterKey = replicate 32 2\<rparr> e = Inl AuthenticationFailed"
proof -
  have "DeriveEncryptionKey ref_prims \<lparr>masterKey = replicate 32 2\<rparr>
          \<noteq> DeriveEncryptionKey ref_prims \<lparr>masterKey = replicate 32 1\<rparr>"
    by (simp add: DeriveEncryptionKey_def ref_prims_def ref_pbkdf2_def)
  then show ?thesis
    using envelope_round_trip [OF ref_pbkdf2_length ref_aead_correct ref_aead_key_binding,
        of "\<lparr>masterKey = replicate 32 1\<rparr>" ref_entropy "[10, 20, 30]"
           "\<lparr>masterKey = replicate 32 2\<rparr>"]
    by blast
qed

text \<open>
  Claim C7. \<open>Revoke\<close> on a product whose license file does not exist fails with the
  no-license-file error and changes nothing. When the file exists (and can be written),
  \<open>Revoke\<close> replaces its whole contents by the 1024 bytes read from the random source;
  after that, for every random block that does not authenticate as an envelope under
  the manager's key (all but a negligible share of the blocks under AES-GCM),
  \<open>Validate\<close> and \<open>View\<close> on the product both fail with the decryption failure.
\<close>

theorem revocation:
  assumes "GetLicenseFilePathForProduct P w productName = Some f"
  shows "(files w f = None \<longrightarrow> Revoke P m w ent productName = (w, Some NoLicenseFile))
     \<and> (files w f \<noteq> None \<and> \<not> write_fails w f \<longrightarrow>
          (let block = rand_Read ent 1024; w' = w\<lparr>files := (files w)(f \<mapsto> block)\<rparr>
           in Revoke P m w ent productName = (w', None) \<and> length block = 1024
              \<and> (pbkdf2_length P
                   \<and> gcm_Open P (DeriveEncryptionKey P (crypto m)) (take 12 block) (drop 12 block)
                       = None \<longrightarrow>
                  Validate P m w' now ent' productName
                    = (w', \<lparr>IsValid = False, ResultLicense = None,
                            ErrorMessage = Some (DecryptFailed AuthenticationFailed)\<rparr>)
                  \<and> View P m w' productName = (w', Inl (DecryptFailed AuthenticationFailed)))))"
proof -
  let ?block = "rand_Read ent 1024"
  let ?w' = "w\<lparr>files := (files w)(f \<mapsto> ?block)\<rparr>"
  have p': "GetLicenseFilePathForProduct P ?w' productName = Some f"
    using assms by (simp add: path_after_write)
  have len: "length ?block = 1024" by (simp add: length_rand_Read)
  have absent: "Revoke P m w ent productName = (w, Some NoLicenseFile)" if "files w f = None"
    using that assms by (simp add: Revoke_def)
  have present: "Revoke P m w ent productName = (?w', None)"
    if "files w f \<noteq> None" "\<not> write_fails w f"
    using that assms by (auto simp add: Revoke_def GenerateRandomBytes_def Let_def)
  have dec: "Decrypt P (crypto m) ?block = Inl AuthenticationFailed"
    if "pbkdf2_length P"
      "gcm_Open P (DeriveEncryptionKey P (crypto m)) (take 12 ?block) (drop 12 ?block) = None"
    using that len key_length [of P "crypto m"]
    by (simp add: Decrypt_def aes_NewCipher_def gcm_NonceSize_def)
  have val: "Validate P m ?w' now ent' productName
      = (?w', \<lparr>IsValid = False, ResultLicense = None,
              ErrorMessage = Some (DecryptFailed AuthenticationFailed)\<rparr>)"
    and view: "View P m ?w' productName = (?w', Inl (DecryptFailed AuthenticationFailed))"
    if "pbkdf2_length P"
      "gcm_Open P (DeriveEncryptionKey P (crypto m)) (take 12 ?block) (drop 12 ?block) = None"
    using dec [OF that] p' by (simp_all add: Validate_def View_def readAndVerifyLicense_def)
  show ?thesis
    using absent present len val view by (simp add: Let_def)
qed

theorem revocation_witness:
  "Revoke ref_prims ref_manager ref_world ref_entropy ''Acme'' = (ref_world, Some NoLicenseFile)
   \<and> Revoke ref_prims ref_manager (world_with used_license) ref_entropy ''Acme''
       = (revoked_world, None)
   \<and> length (rand_Read ref_entropy 1024) = 1024
   \<and> Validate ref_prims ref_manager revoked_world mar02_morning ref_entropy ''Acme''
       = (revoked_world, \<lparr>IsValid = False, ResultLicense = None,
                          ErrorMessage = Some (DecryptFailed AuthenticationFailed)\<rparr>)
   \<and> View ref_prims ref_manager revoked_world ''Acme''
       = (revoked_world, Inl (DecryptFailed AuthenticationFailed))"
proof -
  have absent: "files ref_world ref_path = None" by (simp add: ref_world_def)
  have present: "files (world_with used_license) ref_path \<noteq> None"
    using world_with_facts(1) [of used_license] by (rule stored_exists)
  have io: "\<not> write_fails (world_with used_license) ref_path"
    by (simp add: world_with_facts)
  show ?thesis
    using revocation [OF path_Acme_ref_world, of ref_manager ref_entropy mar02_morning ref_entropy]
      revocation [OF path_Acme [of used_license], of ref_manager ref_entropy mar02_morning
        ref_entropy]
      absent present io ref_pbkdf2_length ref_open_random_block
    by (simp add: Let_def revoked_world_def)
qed

text \<open>
  Claim C8. For a stored record bound to a machine id other than the current one, the
  validation fails with the wrong-machine error and returns the world it was given, so
  the license file is byte for byte what it was.
\<close>

theorem wrong_machine_rejected:
  assumes "stored P m w f l" and "PCId l \<noteq> pc"
  shows "readAndVerifyLicense P m w now ent f pc = (w, Inl WrongPC)"
  using rv_wrong_pc [OF assms] .

theorem wrong_machine_rejected_witness:
  "readAndVerifyLicense ref_prims ref_manager (world_with used_license) mar02_morning ref_entropy
     ref_path ''pc-2'' = (world_with used_license, Inl WrongPC)"
proof -
  have "stored ref_prims ref_manager (world_with used_license) ref_path used_license"
    using world_with_facts(1) [of used_license] by (simp add: omitempty_used_license)
  moreover have "PCId used_license \<noteq> ''pc-2''"
    by (simp add: used_license_def ref_license_def)
  ultimately show ?thesis by (rule wrong_machine_rejected)
qed

text \<open>
  Claim C9. Under the contracts of the libraries, every operation that persists a record
  keeps the usage map in step with the usage history. A successful \<open>Create\<close> returns and
  stores a record with distinct days, a usage map that agrees with them, and
  \<open>len(UsageHistory) = len(UsageMap)\<close> whenever the map is present. A successful
  validation of a stored record with distinct days whose usage map, when present, holds
  exactly these days returns and stores a record with the same three properties; this
  covers the first activation, the run at the same instant, and the later runs with the
  map present or rebuilt from the history.
\<close>

theorem usage_map_invariant:
  assumes "libraries_ok P"
  shows "(\<forall>w' l'. Create P m w now ent req = (w', Inr l') \<longrightarrow>
            distinct (UsageHistory l') \<and> usage_synced l' \<and> len_inv l'
            \<and> (\<exists>f. stored P m w' f (omitempty l')) \<and> len_inv (omitempty l'))
     \<and> (stored P m w f l \<and> distinct (UsageHistory l) \<and> usage_synced l \<longrightarrow>
          (\<forall>w' l'. readAndVerifyLicense P m w now ent f pc = (w', Inr l') \<longrightarrow>
             distinct (UsageHistory l') \<and> usage_synced l' \<and> len_inv l'
             \<and> stored P m w' f (omitempty l') \<and> len_inv (omitempty l')))"
proof -
  have create: "distinct (UsageHistory l') \<and> usage_synced l' \<and> len_inv l'
      \<and> (\<exists>f. stored P m w' f (omitempty l')) \<and> len_inv (omitempty l')"
    if c: "Create P m w now ent req = (w', Inr l')" for w' l'
  proof -
    have l': "l' = new_license P m now req" using Create_Inr(1) [OF c] .
    obtain f where "saveLicense P m w ent l' f = (w', None)" using Create_Inr(2) [OF c] by blast
    then have "stored P m w' f (omitempty l')" using saveLicense_stored(1) [OF assms] by blast
    then show ?thesis
      using new_license_facts(1-3) [of P m now req] omitempty_len_inv [of l'] unfolding l'
      by blast
  qed
  have validate: "distinct (UsageHistory l') \<and> usage_synced l' \<and> len_inv l'
      \<and> stored P m w' f (omitempty l') \<and> len_inv (omitempty l')"
    if st: "stored P m w f l" and d: "distinct (UsageHistory l)" and s: "usage_synced l"
      and r: "readAndVerifyLicense P m w now ent f pc = (w', Inr l')" for w' l'
  proof -
    have inv: "distinct (UsageHistory l') \<and> usage_synced l' \<and> stored P m w' f (omitempty l')"
      using rv_Inr_cases [OF st r]
    proof (elim disjE conjE)
      assume "expire_or_save P m w ent (activated l now) f = (w', Inr l')"
      then show ?thesis
        using expire_or_save_Inr(1,2) [OF assms] activated_facts(1,2) [of l now] by metis
    next
      assume "saveLicense P m w ent (l\<lparr>RunCount := RunCount l + 1\<rparr>) f = (w', None)"
        and "l' = l\<lparr>RunCount := RunCount l + 1\<rparr>"
      then show ?thesis
        using saveLicense_stored(1) [OF assms] d s by (simp add: RunCount_update_synced)
    next
      assume "expire_or_save P m w ent (used_again l now) f = (w', Inr l')"
      then show ?thesis
        using expire_or_save_Inr(1,2) [OF assms] used_again_synced [OF s, of now]
          used_again_distinct [OF s d, of now] by metis
    qed
    then show ?thesis using synced_len_inv [of l'] omitempty_len_inv [of l'] by blast
  qed
  show ?thesis using create validate by blast
qed

theorem usage_map_invariant_witness:
  "(\<exists>w' l'. Create ref_prims ref_manager ref_world feb28_evening ref_entropy acme_request
               = (w', Inr l')
            \<and> distinct (UsageHistory l') \<and> usage_synced l' \<and> len_inv l'
            \<and> len_inv (omitempty l'))
   \<and> (\<exists>w' l'. readAndVerifyLicense ref_prims ref_manager (world_with used_license) mar02_morning
               ref_entropy ref_path ''pc-1'' = (w', Inr l')
            \<and> distinct (UsageHistory l') \<and> usage_synced l' \<and> len_inv l'
            \<and> stored ref_prims ref_manager w' ref_path (omitempty l')
            \<and> len_inv (omitempty l'))"
proof -
  have "GetLicenseFilePathForProduct ref_prims ref_world (req_ProductName acme_request)
          = Some ref_path"
    using path_Acme_ref_world by (simp add: acme_request_def)
  moreover have "files ref_world ref_path = None" by (simp add: ref_world_def)
  ultimately obtain w1 where
    c: "Create ref_prims ref_manager ref_world feb28_evening ref_entropy acme_request
          = (w1, Inr (new_license ref_prims ref_manager feb28_evening acme_request))"
    using Create_ok [OF ref_libraries_ok _ _ ref_world_io, of acme_request ref_path]
    by blast
  have "LastUsedDate used_license = [] \<or> LastUsedDate used_license < RFC3339 mar02_morning"
    by (simp add: used_license_facts mar02_morning_def)
  moreover have "IsLifetime used_license
      \<or> int (length (UsageHistory (used_again used_license mar02_morning)))
          \<le> sint (MaxDays used_license)"
    using used_again_new_day(1) [OF used_license_facts(2), of mar02_morning]
    by (simp add: used_license_facts mar02_morning_def)
  ultimately obtain w2 where
    v: "readAndVerifyLicense ref_prims ref_manager (world_with used_license) mar02_morning
          ref_entropy ref_path ''pc-1'' = (w2, Inr (used_again used_license mar02_morning))"
    using validate_later_ok [OF ref_libraries_ok world_with_io stored_used_license
        used_license_bound used_license_facts(1), of mar02_morning ref_entropy]
    by blast
  show ?thesis
    using usage_map_invariant [OF ref_libraries_ok, where m = ref_manager and w = ref_world
        and now = feb28_evening and ent = ref_entropy and req = acme_request]
      usage_map_invariant [OF ref_libraries_ok, where m = ref_manager
        and w = "world_with used_license" and now = mar02_morning and ent = ref_entropy
        and f = ref_path and l = used_license and pc = "''pc-1''"]
      c v stored_used_license used_license_facts(2,3)
    by blast
qed

text \<open>
  Claim C10. For every machine id, product name, term and serial key, the serial token has
  exactly 23 characters: four groups of five upper-case hexadecimal characters, with
  \<open>-\<close> at the positions 5, 11 and 17 (counted from 0). The token is a function of these
  inputs and of nothing else, so equal inputs give equal tokens.
\<close>

theorem serial_token_format:
  "(let s = GenerateSerial P cm pcId productName maxDays
    in length s = 23 \<and> s ! 5 = CHR ''-'' \<and> s ! 11 = CHR ''-'' \<and> s ! 17 = CHR ''-''
     \<and> serial_group (take 5 s) \<and> serial_group (take 5 (drop 6 s))
     \<and> serial_group (take 5 (drop 12 s)) \<and> serial_group (take 5 (drop 18 s)))"
proof -
  obtain g1 g2 g3 g4
    where s: "GenerateSerial P cm pcId productName maxDays
                = g1 @ ''-'' @ g2 @ ''-'' @ g3 @ ''-'' @ g4"
    and g: "serial_group g1" "serial_group g2" "serial_group g3" "serial_group g4"
    using GenerateSerial_groups [of P cm pcId productName maxDays] by blast
  have l: "length g1 = 5" "length g2 = 5" "length g3 = 5" "length g4 = 5"
    using g by (simp_all add: serial_group_def)
  show ?thesis using g l by (simp add: s nth_append Let_def)
qed

theorem serial_token_format_witness:
  "length (GenerateSerial ref_prims (crypto ref_manager) ''pc-1'' ''Acme'' 30) = 23
     \<and> GenerateSerial ref_prims (crypto ref_manager) ''pc-1'' ''Acme'' 30 ! 5 = CHR ''-''"
  using serial_token_format [of ref_prims "crypto ref_manager" "''pc-1''" "''Acme''" 30]
  by (simp add: Let_def)

end
